theory Spec2Isabelle
  imports Complex_Main "HOL-Library.Log_Nat"
begin

section \<open>JavaScript numbers\<close>

text \<open>
  The prices of \<^verbatim>\<open>page.tsx\<close> are JavaScript numbers: IEEE 754 binary64 values. A finite
  number is modelled by the rational it denotes, next to the two infinities and NaN. The sign
  of zero is not modelled: nothing in the page divides by a number or calls \<^verbatim>\<open>Object.is\<close>,
  the only places where JavaScript tells \<^verbatim>\<open>-0\<close> from \<^verbatim>\<open>0\<close>.

  Every arithmetic operation returns the exact result rounded to the nearest binary64 value,
  ties to the even significand (\<open>round_binary64\<close>): 53 significant bits, the smallest exponent
  \<open>-1022\<close> (below it the spacing stays \<open>2 powi (-1074)\<close>), and overflow to an infinity.
\<close>

datatype jsnum = Fin rat | PInf | NInf | NaN

text \<open>\<open>ilog2 x\<close> is the exponent of the binade of a positive \<open>x\<close>: \<open>2 powi ilog2 x \<le> x < 2 powi (ilog2 x + 1)\<close>.\<close>

definition ilog2 :: "rat \<Rightarrow> int" where
  "ilog2 x = (if 1 \<le> x then bitlen \<lfloor>x\<rfloor> - 1 else - bitlen (\<lceil>1 / x\<rceil> - 1))"

definition round_half_even :: "rat \<Rightarrow> int" where
  "round_half_even x = (let f = \<lfloor>x\<rfloor>; d = x - of_int f in
     if d < 1 / 2 then f else if 1 / 2 < d then f + 1 else if even f then f else f + 1)"

definition quantum :: "rat \<Rightarrow> rat" where
  "quantum x = 2 powi (max (ilog2 \<bar>x\<bar>) (- 1022) - 52)"

definition round_binary64 :: "rat \<Rightarrow> rat" where
  "round_binary64 x = (if x = 0 then 0 else of_int (round_half_even (x / quantum x)) * quantum x)"

definition to_double :: "rat \<Rightarrow> jsnum" where
  "to_double x = (let r = round_binary64 x in
     if 2 ^ 1024 \<le> r then PInf else if r \<le> - (2 ^ 1024) then NInf else Fin r)"

fun fadd :: "jsnum \<Rightarrow> jsnum \<Rightarrow> jsnum" where
  "fadd (Fin a) (Fin b) = to_double (a + b)"
| "fadd NaN _ = NaN"
| "fadd _ NaN = NaN"
| "fadd PInf NInf = NaN"
| "fadd NInf PInf = NaN"
| "fadd PInf _ = PInf"
| "fadd _ PInf = PInf"
| "fadd NInf _ = NInf"
| "fadd _ NInf = NInf"

fun fneg :: "jsnum \<Rightarrow> jsnum" where
  "fneg (Fin a) = Fin (- a)"
| "fneg PInf = NInf"
| "fneg NInf = PInf"
| "fneg NaN = NaN"

definition fsub :: "jsnum \<Rightarrow> jsnum \<Rightarrow> jsnum" where
  "fsub a b = fadd a (fneg b)"

fun fmul :: "jsnum \<Rightarrow> jsnum \<Rightarrow> jsnum" where
  "fmul (Fin a) (Fin b) = to_double (a * b)"
| "fmul NaN _ = NaN"
| "fmul _ NaN = NaN"
| "fmul (Fin a) PInf = (if a = 0 then NaN else if 0 < a then PInf else NInf)"
| "fmul (Fin a) NInf = (if a = 0 then NaN else if 0 < a then NInf else PInf)"
| "fmul PInf (Fin b) = (if b = 0 then NaN else if 0 < b then PInf else NInf)"
| "fmul NInf (Fin b) = (if b = 0 then NaN else if 0 < b then NInf else PInf)"
| "fmul PInf PInf = PInf"
| "fmul PInf NInf = NInf"
| "fmul NInf PInf = NInf"
| "fmul NInf NInf = PInf"

text \<open>\<^verbatim>\<open>Math.round\<close>: the nearest integer, a tie going up; infinities and NaN are returned as they are.\<close>

fun Math_round :: "jsnum \<Rightarrow> jsnum" where
  "Math_round (Fin x) = Fin (of_int \<lfloor>x + 1 / 2\<rfloor>)"
| "Math_round v = v"

text \<open>A numeric literal of the source denotes the binary64 value nearest to its decimal value.\<close>

definition literal :: "rat \<Rightarrow> jsnum" where
  "literal x = to_double x"

text \<open>
  Room counts are non-negative integers (the page starts them at 0 and changes them by one),
  so a count is a \<open>nat\<close>; \<^verbatim>\<open>Number(count)\<close> is the number holding it, exact below \<open>2 ^ 53\<close>.
\<close>

definition Number :: "nat \<Rightarrow> jsnum" where
  "Number count = to_double (of_nat count)"

text \<open>A property that is missing reads as \<^verbatim>\<open>undefined\<close> (\<open>None\<close>), which arithmetic turns into NaN.\<close>

definition ToNumber :: "jsnum option \<Rightarrow> jsnum" where
  "ToNumber v = (case v of None \<Rightarrow> NaN | Some n \<Rightarrow> n)"

section \<open>Objects\<close>

text \<open>
  An object literal is an association list in property order, each key once.
  Reading \<^verbatim>\<open>obj[key]\<close> finds the object's own property first and then follows the prototype
  chain: for an object literal the prototype is \<^verbatim>\<open>Object.prototype\<close>, whose properties
  (ECMA-262, 20.1.3 and B.2.2) are functions, or \<^verbatim>\<open>Object.prototype\<close> itself for
  \<^verbatim>\<open>__proto__\<close>: values that are truthy and carry none of the fields the page reads.
\<close>

datatype 'a lookup = Own 'a | Inherited | Undefined

definition Object_prototype_keys :: "string list" where
  "Object_prototype_keys =
     [''constructor'', ''hasOwnProperty'', ''isPrototypeOf'', ''propertyIsEnumerable'',
      ''toLocaleString'', ''toString'', ''valueOf'', ''__proto__'',
      ''__defineGetter__'', ''__defineSetter__'', ''__lookupGetter__'', ''__lookupSetter__'']"

definition prop_get :: "(string \<times> 'a) list \<Rightarrow> string \<Rightarrow> 'a lookup" where
  "prop_get obj k =
     (case map_of obj k of
        Some v \<Rightarrow> Own v
      | None \<Rightarrow> if k \<in> set Object_prototype_keys then Inherited else Undefined)"

definition Object_keys :: "(string \<times> 'a) list \<Rightarrow> string list" where
  "Object_keys obj = map fst obj"

definition Object_values :: "(string \<times> 'a) list \<Rightarrow> 'a list" where
  "Object_values obj = map snd obj"

definition hasOwnProperty :: "(string \<times> 'a) list \<Rightarrow> string \<Rightarrow> bool" where
  "hasOwnProperty obj k = (k \<in> set (Object_keys obj))"

text \<open>\<^verbatim>\<open>obj[k] = v\<close>: an existing property keeps its place, a new one is added at the end.\<close>

fun assign :: "(string \<times> 'a) list \<Rightarrow> string \<Rightarrow> 'a \<Rightarrow> (string \<times> 'a) list" where
  "assign [] k v = [(k, v)]"
| "assign ((k', v') # kvs) k v = (if k' = k then (k, v) # kvs else (k', v') # assign kvs k v)"

text \<open>The fields of an object that was looked up; a function of the prototype has none of them.\<close>

definition field :: "('a \<Rightarrow> jsnum) \<Rightarrow> 'a lookup \<Rightarrow> jsnum option" where
  "field f p = (case p of Own d \<Rightarrow> Some (f d) | Inherited \<Rightarrow> None | Undefined \<Rightarrow> None)"

definition truthy :: "'a lookup \<Rightarrow> bool" where
  "truthy p = (case p of Own d \<Rightarrow> True | Inherited \<Rightarrow> True | Undefined \<Rightarrow> False)"

section \<open>Room names: \<^verbatim>\<open>mapRoomsToBackend\<close>\<close>

definition roomMapping :: "(string \<times> string) list" where
  "roomMapping =
     [(''Living Room'', ''Living Room''),
      (''Terrace'', ''Terrace/Balcony''),
      (''Bedroom'', ''Bedrooms''),
      (''Bathroom'', ''Bathrooms''),
      (''Kitchen'', ''Kitchen''),
      (''Dining'', ''Dining Room''),
      (''Garage'', ''Garage'')]"

definition backendItems_init :: "(string \<times> nat) list" where
  "backendItems_init =
     [(''Living Room'', 0),
      (''Bedrooms'', 0),
      (''Bathrooms'', 0),
      (''Kitchen'', 0),
      (''Dining Room'', 0),
      (''Terrace/Balcony'', 0),
      (''Garage'', 0),
      (''Study/Office'', 0)]"

text \<open>
  The body of the \<^verbatim>\<open>forEach\<close>. \<^verbatim>\<open>frontendKey\<close> is a key of \<^verbatim>\<open>frontendItems\<close>, so
  \<^verbatim>\<open>frontendItems[frontendKey]\<close> is its own value. A key such as \<^verbatim>\<open>toString\<close> finds an
  inherited function in \<^verbatim>\<open>roomMapping\<close>; \<^verbatim>\<open>hasOwnProperty\<close> turns that function into its
  source text, which is no key of \<^verbatim>\<open>backendItems\<close>, so the test fails.
\<close>

definition forEach_body ::
  "(string \<times> nat) list \<Rightarrow> (string \<times> nat) list \<Rightarrow> string \<Rightarrow> (string \<times> nat) list" where
  "forEach_body frontendItems backendItems frontendKey =
     (case prop_get roomMapping frontendKey of
        Own backendKey \<Rightarrow>
          if backendKey \<noteq> [] \<and> hasOwnProperty backendItems backendKey
          then (case map_of frontendItems frontendKey of
                  Some count \<Rightarrow> assign backendItems backendKey count
                | None \<Rightarrow> backendItems)
          else backendItems
      | Inherited \<Rightarrow> backendItems
      | Undefined \<Rightarrow> backendItems)"

definition mapRoomsToBackend :: "(string \<times> nat) list \<Rightarrow> (string \<times> nat) list" where
  "mapRoomsToBackend frontendItems =
     foldl (forEach_body frontendItems) backendItems_init (Object_keys frontendItems)"

section \<open>The price: \<^verbatim>\<open>calculateCleaningPrice\<close>\<close>

record CleaningPriceOptions =
  category :: "string option"
  package :: "string option"
  homeSize :: "string option"
  frequency :: "string option"

record category_data =
  cat_basePrice :: jsnum
  cat_pricePerRoom :: jsnum

record multiplier_data =
  multiplier :: jsnum

record frequency_data =
  freq_discount :: jsnum

definition CLEANING_CATEGORIES :: "(string \<times> category_data) list" where
  "CLEANING_CATEGORIES =
     [(''Standard Cleaning'', \<lparr>cat_basePrice = literal 8000, cat_pricePerRoom = literal 1200\<rparr>),
      (''Deep Cleaning'', \<lparr>cat_basePrice = literal 15000, cat_pricePerRoom = literal 2000\<rparr>),
      (''Move-in Cleaning'', \<lparr>cat_basePrice = literal 20000, cat_pricePerRoom = literal 2500\<rparr>),
      (''Move-out Cleaning'', \<lparr>cat_basePrice = literal 22000, cat_pricePerRoom = literal 2800\<rparr>)]"

definition CLEANING_PACKAGES :: "(string \<times> multiplier_data) list" where
  "CLEANING_PACKAGES =
     [(''Basic Package'', \<lparr>multiplier = literal 0.8\<rparr>),
      (''Standard Package'', \<lparr>multiplier = literal 1\<rparr>),
      (''Premium Package'', \<lparr>multiplier = literal 1.4\<rparr>),
      (''Luxury Package'', \<lparr>multiplier = literal 1.8\<rparr>)]"

definition HOME_SIZES :: "(string \<times> multiplier_data) list" where
  "HOME_SIZES =
     [(''studio'', \<lparr>multiplier = literal 0.7\<rparr>),
      (''small'', \<lparr>multiplier = literal 1\<rparr>),
      (''medium'', \<lparr>multiplier = literal 1.5\<rparr>),
      (''large'', \<lparr>multiplier = literal 2.2\<rparr>)]"

definition FREQUENCIES :: "(string \<times> frequency_data) list" where
  "FREQUENCIES =
     [(''one-time'', \<lparr>freq_discount = literal 0\<rparr>),
      (''monthly'', \<lparr>freq_discount = literal 0.05\<rparr>),
      (''bi-weekly'', \<lparr>freq_discount = literal 0.1\<rparr>),
      (''weekly'', \<lparr>freq_discount = literal 0.15\<rparr>)]"

text \<open>
  The breakdown of a price. A coefficient read from an inherited object is \<^verbatim>\<open>undefined\<close>
  (\<open>None\<close>). In \<open>pricing\<close>, the empty object \<^verbatim>\<open>{}\<close> is the breakdown \<open>None\<close>.
\<close>

record price_breakdown =
  basePrice :: "jsnum option"
  roomCount :: jsnum
  pricePerRoom :: "jsnum option"
  packageMultiplier :: "jsnum option"
  sizeMultiplier :: "jsnum option"
  frequencyDiscount :: "jsnum option"
  subtotal :: jsnum
  discount :: jsnum
  total' :: jsnum

record pricing =
  finalPrice :: jsnum
  breakdown :: "price_breakdown option"

text \<open>A destructuring default: it applies when the property is absent (\<^verbatim>\<open>undefined\<close>).\<close>

definition default :: "string \<Rightarrow> string option \<Rightarrow> string" where
  "default d v = (case v of None \<Rightarrow> d | Some s \<Rightarrow> s)"

text \<open>The \<^verbatim>\<open>reduce\<close> over \<^verbatim>\<open>Object.values(backendItems)\<close>.\<close>

definition reduce_totalItems :: "(string \<times> nat) list \<Rightarrow> jsnum" where
  "reduce_totalItems backendItems =
     foldl (\<lambda>sum count. fadd sum (Number count)) (Fin 0) (Object_values backendItems)"

definition calculateCleaningPrice ::
  "(string \<times> nat) list \<Rightarrow> 'a CleaningPriceOptions_scheme \<Rightarrow> pricing" where
  "calculateCleaningPrice items options =
     (let category' = default ''Standard Cleaning'' (category options);
          packageName = default ''Standard Package'' (package options);
          homeSize' = default ''small'' (homeSize options);
          frequency' = default ''one-time'' (frequency options);
          categoryData = prop_get CLEANING_CATEGORIES category';
          packageData = prop_get CLEANING_PACKAGES packageName;
          sizeData = prop_get HOME_SIZES homeSize';
          frequencyData = prop_get FREQUENCIES frequency'
      in if \<not> truthy categoryData \<or> \<not> truthy packageData \<or> \<not> truthy sizeData
            \<or> \<not> truthy frequencyData
         then \<lparr>finalPrice = Fin 0, breakdown = None\<rparr>
         else
           let backendItems = mapRoomsToBackend items;
               totalItems = reduce_totalItems backendItems
           in if totalItems = Fin 0
              then \<lparr>finalPrice = Fin 0, breakdown = None\<rparr>
              else
                let baseTotal =
                      fmul (fmul (fadd (ToNumber (field cat_basePrice categoryData))
                                       (fmul totalItems (ToNumber (field cat_pricePerRoom categoryData))))
                                 (ToNumber (field multiplier packageData)))
                           (ToNumber (field multiplier sizeData));
                    discountedPrice =
                      fmul baseTotal (fsub (Fin 1) (ToNumber (field freq_discount frequencyData)));
                    finalPrice' = Math_round discountedPrice
                in \<lparr>finalPrice = finalPrice',
                    breakdown = Some
                      \<lparr>basePrice = field cat_basePrice categoryData,
                       roomCount = totalItems,
                       pricePerRoom = field cat_pricePerRoom categoryData,
                       packageMultiplier = field multiplier packageData,
                       sizeMultiplier = field multiplier sizeData,
                       frequencyDiscount = field freq_discount frequencyData,
                       subtotal = baseTotal,
                       discount = fsub baseTotal discountedPrice,
                       total' = finalPrice'\<rparr>\<rparr>)"


section \<open>Strings\<close>

text \<open>
  Strings are lists of 8-bit code units. \<open>string_of_nat\<close> is the decimal text a template
  literal prints for a non-negative integer below \<open>2 ^ 53\<close>.
\<close>

definition digit :: "nat \<Rightarrow> char" where
  "digit d = ''0123456789'' ! d"

fun string_of_nat :: "nat \<Rightarrow> string" where
  "string_of_nat n = (if n < 10 then [digit n] else string_of_nat (n div 10) @ [digit (n mod 10)])"

declare string_of_nat.simps [simp del]

text \<open>\<^verbatim>\<open>s.split(c)\<close> for a one-character separator: the empty string splits into one empty piece.\<close>

fun split :: "char \<Rightarrow> string \<Rightarrow> string list" where
  "split c [] = [[]]"
| "split c (x # xs) =
     (if x = c then [] # split c xs
      else (case split c xs of [] \<Rightarrow> [[x]] | w # ws \<Rightarrow> (x # w) # ws))"

text \<open>The white space \<^verbatim>\<open>trim\<close> removes, among 8-bit code units: TAB, LF, VT, FF, CR, space, NBSP.\<close>

definition isWhiteSpace :: "char \<Rightarrow> bool" where
  "isWhiteSpace c = (of_char c \<in> {9, 10, 11, 12, 13, 32, 160 :: nat})"

definition trim :: "string \<Rightarrow> string" where
  "trim s = rev (dropWhile isWhiteSpace (rev (dropWhile isWhiteSpace s)))"

definition startsWith :: "string \<Rightarrow> string \<Rightarrow> bool" where
  "startsWith s p = (take (length p) s = p)"

section \<open>The page \<^verbatim>\<open>HouseCleaningPage\<close>\<close>

text \<open>
  The state of the component. \<^verbatim>\<open>selectedOptions\<close> always holds its six strings, so its
  fields are strings here (prefix \<open>so_\<close>); \<open>options_of\<close> is the same object read as the
  \<^verbatim>\<open>options\<close> argument of \<^verbatim>\<open>calculateCleaningPrice\<close>. The field \<^verbatim>\<open>notes\<close> is written
  \<open>notes'\<close>, as \<^verbatim>\<open>total\<close> of the breakdown is written \<open>total'\<close>.
\<close>

record selected_options =
  so_category :: string
  so_package :: string
  so_homeSize :: string
  so_frequency :: string
  preferredTime :: string
  specialInstructions :: string

definition options_of :: "selected_options \<Rightarrow> CleaningPriceOptions" where
  "options_of so =
     \<lparr>category = Some (so_category so), package = Some (so_package so),
      homeSize = Some (so_homeSize so), frequency = Some (so_frequency so)\<rparr>"

record reminders_state =
  sms :: bool
  email :: bool

record CustomerInfoState =
  phone :: string
  address :: string
  notes' :: string
  specialRequests :: "string list"
  reminders :: reminders_state

record page =
  items :: "(string \<times> nat) list"
  selectedOptions :: selected_options
  customerInfo :: CustomerInfoState
  totalItems :: nat
  isDesktop :: bool
  isDateSelectorOpen :: bool
  pricing :: pricing
  loading :: bool
  error :: "string option"
  showOptions :: bool

text \<open>The two effects that recompute \<^verbatim>\<open>totalItems\<close> and \<^verbatim>\<open>pricing\<close> after a change.\<close>

definition effect_totalItems :: "page \<Rightarrow> page" where
  "effect_totalItems s =
     s\<lparr>totalItems := foldl (\<lambda>sum count. sum + count) 0 (Object_values (items s))\<rparr>"

definition effect_pricing :: "page \<Rightarrow> page" where
  "effect_pricing s =
     s\<lparr>pricing := calculateCleaningPrice (items s) (options_of (selectedOptions s))\<rparr>"

text \<open>The state the component starts in (the arguments of its \<^verbatim>\<open>useState\<close> calls).\<close>

definition initial_page :: page where
  "initial_page =
     \<lparr>items =
        [(''Living Room'', 0), (''Terrace'', 0), (''Bedroom'', 0), (''Bathroom'', 0),
         (''Kitchen'', 0), (''Dining'', 0), (''Garage'', 0)],
      selectedOptions =
        \<lparr>so_category = ''Standard Cleaning'', so_package = ''Standard Package'',
         so_homeSize = ''small'', so_frequency = ''one-time'',
         preferredTime = ''10:00 AM - 12:00 PM'', specialInstructions = []\<rparr>,
      customerInfo =
        \<lparr>phone = [], address = [], notes' = [], specialRequests = [],
         reminders = \<lparr>sms = False, email = False\<rparr>\<rparr>,
      totalItems = 0,
      isDesktop = False,
      isDateSelectorOpen = False,
      pricing = \<lparr>finalPrice = Fin 0, breakdown = None\<rparr>,
      loading = False,
      error = None,
      showOptions = False\<rparr>"

definition turnarounds :: "(string \<times> string) list" where
  "turnarounds =
     [(''Standard Cleaning'', ''2-4 hours''),
      (''Deep Cleaning'', ''4-6 hours''),
      (''Move-in Cleaning'', ''5-8 hours''),
      (''Move-out Cleaning'', ''5-8 hours'')]"

text \<open>\<^verbatim>\<open>turnarounds[category] || "2-4 hours"\<close>; an inherited function is truthy and is returned.\<close>

definition getTurnaround :: "string \<Rightarrow> string lookup" where
  "getTurnaround category' =
     (case prop_get turnarounds category' of
        Own s \<Rightarrow> if s \<noteq> [] then Own s else Own ''2-4 hours''
      | Inherited \<Rightarrow> Inherited
      | Undefined \<Rightarrow> Own ''2-4 hours'')"

text \<open>
  \<^verbatim>\<open>getEstimatedTime\<close> reads \<^verbatim>\<open>totalItems\<close> from the state. The arithmetic is on integers
  (exact in JavaScript below \<open>2 ^ 53\<close>), so it is modelled in \<open>nat\<close>.
\<close>

definition getEstimatedTime :: "nat \<Rightarrow> string" where
  "getEstimatedTime totalItems' =
     (let baseTime = 60;
          timePerItem = 30;
          totalMinutes = baseTime + totalItems' * timePerItem;
          hours = totalMinutes div 60;
          minutes = totalMinutes mod 60
      in string_of_nat hours @ ''h '' @ (if minutes > 0 then string_of_nat minutes @ ''m'' else []))"

record cleaning_data =
  cd_category :: string
  cd_package :: string
  cd_items :: "(string \<times> nat) list"
  cd_homeSize :: string
  cd_frequency :: string
  estimatedPrice :: jsnum
  estimatedTime :: string
  cd_preferredTime :: string
  cd_specialInstructions :: string
  turnaround :: "string lookup"

record booking_data =
  bd_items :: "(string \<times> nat) list"
  bd_selectedOptions :: selected_options
  bd_pricing :: pricing
  bd_totalItems :: nat
  bd_cleaningData :: cleaning_data
  bd_backendItems :: "(string \<times> nat) list"
  bd_customerInfo :: CustomerInfoState

text \<open>
  What the page sees of the browser: \<^verbatim>\<open>document.cookie\<close> (\<open>None\<close> without a document),
  \<^verbatim>\<open>localStorage\<close> (\<open>None\<close> when there is none), and the requests sent with \<^verbatim>\<open>fetch\<close> so far.
\<close>

record 'r browser =
  document_cookie :: "string option"
  localStorage :: "(string \<rightharpoonup> string) option"
  requests :: "'r list"

text \<open>
  \<^verbatim>\<open>handleContinue\<close>. \<^verbatim>\<open>JSON.stringify\<close> is a parameter. Without \<^verbatim>\<open>localStorage\<close> the
  handler stops at \<^verbatim>\<open>localStorage.setItem\<close>, after the error was cleared.
\<close>

definition handleContinue ::
  "(booking_data \<Rightarrow> string) \<Rightarrow> page \<Rightarrow> 'r browser \<Rightarrow> page \<times> 'r browser" where
  "handleContinue JSON_stringify s w =
     (if totalItems s = 0
      then (s\<lparr>error := Some ''Please select at least one room to clean''\<rparr>, w)
      else
        let s' = s\<lparr>error := None\<rparr>;
            backendItems = mapRoomsToBackend (items s);
            cleaningData =
              \<lparr>cd_category = so_category (selectedOptions s),
               cd_package = so_package (selectedOptions s),
               cd_items = backendItems,
               cd_homeSize = so_homeSize (selectedOptions s),
               cd_frequency = so_frequency (selectedOptions s),
               estimatedPrice = finalPrice (pricing s),
               estimatedTime = getEstimatedTime (totalItems s),
               cd_preferredTime = preferredTime (selectedOptions s),
               cd_specialInstructions = specialInstructions (selectedOptions s),
               turnaround = getTurnaround (so_category (selectedOptions s))\<rparr>;
            bookingData =
              \<lparr>bd_items = items s,
               bd_selectedOptions = selectedOptions s,
               bd_pricing = pricing s,
               bd_totalItems = totalItems s,
               bd_cleaningData = cleaningData,
               bd_backendItems = backendItems,
               bd_customerInfo = customerInfo s\<rparr>
        in case localStorage w of
             None \<Rightarrow> (s', w)
           | Some store \<Rightarrow>
               (s'\<lparr>isDateSelectorOpen := True\<rparr>,
                w\<lparr>localStorage := Some (store(''cleaningItems'' \<mapsto> JSON_stringify bookingData))\<rparr>))"

section \<open>The session and the request: \<^verbatim>\<open>bookCleaningService\<close>\<close>

text \<open>
  Parsed JSON. \<^verbatim>\<open>JSON.parse\<close> is a parameter \<open>string \<Rightarrow> json option\<close>, \<open>None\<close> when it throws
  a \<^verbatim>\<open>SyntaxError\<close>. A property that is absent reads as \<^verbatim>\<open>undefined\<close> (\<open>None\<close>).
\<close>

datatype json =
  JNull | JBool bool | JNum jsnum | JStr string | JArr "json list" | JObj "(string \<times> json) list"

text \<open>
  The exceptions. \<open>Error m\<close> is \<^verbatim>\<open>new Error(m)\<close> for a string \<open>m\<close>; \<open>Error_of v\<close> is
  \<^verbatim>\<open>new Error(v)\<close> for a value that is no string (its message is the text of \<open>v\<close>);
  \<open>FetchRejected\<close> is the rejection of \<^verbatim>\<open>fetch\<close> when the network fails.
\<close>

datatype js_error = Error string | Error_of json | SyntaxError | TypeError | FetchRejected

definition new_Error :: "json \<Rightarrow> js_error" where
  "new_Error v = (case v of JStr m \<Rightarrow> Error m | _ \<Rightarrow> Error_of v)"

text \<open>
  \<^verbatim>\<open>v.k\<close> for the keys the page reads (\<^verbatim>\<open>user_id\<close>, \<^verbatim>\<open>id\<close>, \<^verbatim>\<open>message\<close>, \<^verbatim>\<open>data\<close>),
  which no built-in prototype defines: reading from \<^verbatim>\<open>null\<close> throws a \<^verbatim>\<open>TypeError\<close>, an
  object gives its own property, any other value gives \<^verbatim>\<open>undefined\<close>.
\<close>

fun get_property :: "json \<Rightarrow> string \<Rightarrow> js_error + json option" where
  "get_property JNull k = Inl TypeError"
| "get_property (JObj kvs) k = Inr (map_of kvs k)"
| "get_property v k = Inr None"

fun json_truthy :: "json option \<Rightarrow> bool" where
  "json_truthy None = False"
| "json_truthy (Some JNull) = False"
| "json_truthy (Some (JBool b)) = b"
| "json_truthy (Some (JNum n)) = (n \<noteq> Fin 0 \<and> n \<noteq> NaN)"
| "json_truthy (Some (JStr s)) = (s \<noteq> [])"
| "json_truthy (Some (JArr vs)) = True"
| "json_truthy (Some (JObj kvs)) = True"

definition getAuthToken :: "'r browser \<Rightarrow> string option" where
  "getAuthToken w =
     (case (case document_cookie w of
              None \<Rightarrow> None
            | Some cookies \<Rightarrow>
                List.find (\<lambda>cookie. startsWith (trim cookie) ''auth_token='')
                  (split CHR '';'' cookies)) of
        Some authCookie \<Rightarrow>
          (case split CHR ''='' authCookie of
             a # b # rest \<Rightarrow> Some b
           | _ \<Rightarrow> None)
      | None \<Rightarrow>
          (case localStorage w of
             Some store \<Rightarrow>
               (case store ''auth_token'' of
                  Some t \<Rightarrow> if t \<noteq> [] then Some t else store ''token''
                | None \<Rightarrow> store ''token'')
           | None \<Rightarrow> None))"

text \<open>
  \<^verbatim>\<open>getUserData\<close>: everything thrown inside the \<^verbatim>\<open>try\<close> (by \<^verbatim>\<open>JSON.parse\<close>, by reading
  a property of \<^verbatim>\<open>null\<close>, or by the \<^verbatim>\<open>throw\<close> for a missing id) is caught and replaced.
\<close>

definition getUserData_try :: "(string \<Rightarrow> json option) \<Rightarrow> string \<Rightarrow> js_error + json \<times> json" where
  "getUserData_try JSON_parse userData =
     (case JSON_parse userData of
        None \<Rightarrow> Inl SyntaxError
      | Some user \<Rightarrow>
          (case get_property user ''user_id'' of
             Inl e \<Rightarrow> Inl e
           | Inr a \<Rightarrow>
               (case (if json_truthy a then Inr a else get_property user ''id'') of
                  Inl e \<Rightarrow> Inl e
                | Inr userId \<Rightarrow>
                    (case userId of
                       None \<Rightarrow> Inl (Error ''Invalid user data. Please log in again.'')
                     | Some uid \<Rightarrow>
                         if \<not> json_truthy userId
                         then Inl (Error ''Invalid user data. Please log in again.'')
                         else Inr (user, uid)))))"

definition getUserData :: "(string \<Rightarrow> json option) \<Rightarrow> 'r browser \<Rightarrow> js_error + json \<times> json" where
  "getUserData JSON_parse w =
     (case localStorage w of
        None \<Rightarrow> Inl (Error ''localStorage not available'')
      | Some store \<Rightarrow>
          (case store ''user_data'' of
             None \<Rightarrow> Inl (Error ''User not found. Please log in again.'')
           | Some userData \<Rightarrow>
               if userData = [] then Inl (Error ''User not found. Please log in again.'')
               else (case getUserData_try JSON_parse userData of
                       Inl parseError \<Rightarrow> Inl (Error ''Invalid user data. Please log in again.'')
                     | Inr r \<Rightarrow> Inr r)))"

definition API_BASE_URL :: "string option \<Rightarrow> string" where
  "API_BASE_URL NEXT_PUBLIC_API_URL =
     (case NEXT_PUBLIC_API_URL of
        Some u \<Rightarrow> if u \<noteq> [] then u else ''http://localhost:3002''
      | None \<Rightarrow> ''http://localhost:3002'')"

text \<open>
  The request. Its body is kept as the object given to \<^verbatim>\<open>JSON.stringify\<close>; the three
  arguments of \<^verbatim>\<open>bookCleaningService\<close> come from the date selector and are of any type
  (\<open>None\<close> for \<^verbatim>\<open>customerInfo\<close> is the default \<^verbatim>\<open>{}\<close>).
\<close>

record ('c, 'd, 'i) request_data =
  user_id :: json
  rd_cleaningData :: 'c
  rd_bookingDetails :: 'd
  rd_customerInfo :: "'i option"

record ('c, 'd, 'i) request =
  url :: string
  http_method :: string
  headers :: "(string \<times> string) list"
  body :: "('c, 'd, 'i) request_data"

text \<open>
  The response: its status, and what \<^verbatim>\<open>response.json()\<close> resolves to (\<open>None\<close> when the body
  is not JSON and the promise rejects with a \<^verbatim>\<open>SyntaxError\<close>). \<^verbatim>\<open>response.ok\<close> is the
  status being in 200..299.
\<close>

record response =
  status :: nat
  json_body :: "json option"

definition ok :: "response \<Rightarrow> bool" where
  "ok r = (200 \<le> status r \<and> status r \<le> 299)"

datatype fetch_result = Rejected | Response response

text \<open>The request that \<^verbatim>\<open>bookCleaningService\<close> gives to \<^verbatim>\<open>fetch\<close>.\<close>

definition booking_request ::
  "string option \<Rightarrow> string \<Rightarrow> json \<Rightarrow> 'c \<Rightarrow> 'd \<Rightarrow> 'i option \<Rightarrow> ('c, 'd, 'i) request" where
  "booking_request NEXT_PUBLIC_API_URL authToken userId cleaningData bookingDetails customerInfo' =
     (let requestData =
            \<lparr>user_id = userId, rd_cleaningData = cleaningData,
             rd_bookingDetails = bookingDetails, rd_customerInfo = customerInfo'\<rparr>
      in \<lparr>url = API_BASE_URL NEXT_PUBLIC_API_URL @ ''/api/v1/house-cleaning/create'',
          http_method = ''POST'',
          headers = [(''Content-Type'', ''application/json''),
                     (''Authorization'', ''Bearer '' @ authToken)],
          body = requestData\<rparr>)"

text \<open>
  \<^verbatim>\<open>bookCleaningService\<close> returns what the promise settles to (\<open>Inl\<close> the exception, \<open>Inr\<close> the
  value, \<open>None\<close> for \<^verbatim>\<open>undefined\<close>) and the browser with the request recorded. \<^verbatim>\<open>fetch\<close> is
  a parameter: the answer of the network to a request. The outer \<^verbatim>\<open>catch\<close> logs and throws
  the same exception again.
\<close>

definition bookCleaningService ::
  "string option \<Rightarrow> (string \<Rightarrow> json option) \<Rightarrow> (('c, 'd, 'i) request \<Rightarrow> fetch_result) \<Rightarrow>
   ('c, 'd, 'i) request browser \<Rightarrow> 'c \<Rightarrow> 'd \<Rightarrow> 'i option \<Rightarrow>
   (js_error + json option) \<times> ('c, 'd, 'i) request browser" where
  "bookCleaningService NEXT_PUBLIC_API_URL JSON_parse fetch w cleaningData bookingDetails customerInfo' =
     (case getAuthToken w of
        None \<Rightarrow> (Inl (Error ''Authentication required. Please log in again.''), w)
      | Some authToken \<Rightarrow>
          if authToken = [] then (Inl (Error ''Authentication required. Please log in again.''), w)
          else
            (case getUserData JSON_parse w of
               Inl e \<Rightarrow> (Inl e, w)
             | Inr (user, userId) \<Rightarrow>
                 let req = booking_request NEXT_PUBLIC_API_URL authToken userId cleaningData
                             bookingDetails customerInfo';
                     w' = w\<lparr>requests := requests w @ [req]\<rparr>
                 in case fetch req of
                      Rejected \<Rightarrow> (Inl FetchRejected, w')
                    | Response r \<Rightarrow>
                        if \<not> ok r
                        then (case json_body r of
                                None \<Rightarrow> (Inl SyntaxError, w')
                              | Some errorData \<Rightarrow>
                                  (case get_property errorData ''message'' of
                                     Inl e \<Rightarrow> (Inl e, w')
                                   | Inr m \<Rightarrow>
                                       (case m of
                                          Some v \<Rightarrow>
                                            if json_truthy m then (Inl (new_Error v), w')
                                            else (Inl (Error (''Booking failed: '' @ string_of_nat (status r))), w')
                                        | None \<Rightarrow>
                                            (Inl (Error (''Booking failed: '' @ string_of_nat (status r))), w'))))
                        else (case json_body r of
                                None \<Rightarrow> (Inl SyntaxError, w')
                              | Some result \<Rightarrow>
                                  (case get_property result ''data'' of
                                     Inl e \<Rightarrow> (Inl e, w')
                                   | Inr d \<Rightarrow> (Inr d, w')))))"

section \<open>Notions used in the statements\<close>

text \<open>\<open>at_least r v\<close>: the number \<open>v\<close> is the positive infinity or a finite number not below \<open>r\<close>.\<close>

definition at_least :: "rat \<Rightarrow> jsnum \<Rightarrow> bool" where
  "at_least r v = (case v of Fin x \<Rightarrow> r \<le> x | PInf \<Rightarrow> True | NInf \<Rightarrow> False | NaN \<Rightarrow> False)"

text \<open>The count a selection gives to a label, 0 when the label is not a key.\<close>

definition count_of :: "(string \<times> nat) list \<Rightarrow> string \<Rightarrow> nat" where
  "count_of frontendItems k = (case map_of frontendItems k of None \<Rightarrow> 0 | Some count \<Rightarrow> count)"

text \<open>
  The translation written out label by label, for a function \<open>g\<close> from frontend labels to
  counts; \<open>mapRoomsToBackend\<close> is proved to compute it.
\<close>

definition backend_of :: "(string \<Rightarrow> nat) \<Rightarrow> (string \<times> nat) list" where
  "backend_of g =
     [(''Living Room'', g ''Living Room''),
      (''Bedrooms'', g ''Bedroom''),
      (''Bathrooms'', g ''Bathroom''),
      (''Kitchen'', g ''Kitchen''),
      (''Dining Room'', g ''Dining''),
      (''Terrace/Balcony'', g ''Terrace''),
      (''Garage'', g ''Garage''),
      (''Study/Office'', 0)]"

text \<open>
  Texts stored under \<^verbatim>\<open>user_data\<close> in the examples, and what \<^verbatim>\<open>JSON.parse\<close> gives for them:
  an object with an id, an object whose only id is 0, and (any other text, \<^verbatim>\<open>oops\<close> in the
  examples) a text that is not JSON.
\<close>

definition user_data_with_id :: string where
  \<open>user_data_with_id = ''{"id":7}''\<close>

definition user_data_without_id :: string where
  \<open>user_data_without_id = ''{"name":"Ada","id":0}''\<close>

definition JSON_parse_examples :: "string \<Rightarrow> json option" where
  "JSON_parse_examples s =
     (if s = user_data_with_id then Some (JObj [(''id'', JNum (Fin 7))])
      else if s = user_data_without_id
      then Some (JObj [(''name'', JStr ''Ada''), (''id'', JNum (Fin 0))])
      else None)"

text \<open>
  The finite binary64 numbers are the rationals \<open>m * 2 powi e\<close> with \<open>\<bar>m\<bar> < 2 ^ 53\<close> and
  \<open>- 1074 \<le> e \<le> 971\<close> (IEEE 754, 3.4). A number has an even significand when, written with
  53 significant bits, or with the least exponent when it is subnormal, its \<open>m\<close> is even.
\<close>

definition is_binary64 :: "rat \<Rightarrow> bool" where
  "is_binary64 y = (\<exists>m e. y = of_int m * 2 powi e \<and> \<bar>m\<bar> < 2 ^ 53 \<and> - 1074 \<le> e \<and> e \<le> 971)"

definition even_significand :: "rat \<Rightarrow> bool" where
  "even_significand y =
     (\<exists>m e. y = of_int m * 2 powi e \<and> even m \<and> \<bar>m\<bar> < 2 ^ 53 \<and> - 1074 \<le> e \<and> e \<le> 971
        \<and> (2 ^ 52 \<le> \<bar>m\<bar> \<or> e = - 1074))"

text \<open>
  \<open>binary64_of x y\<close>: \<open>y\<close> is the result of rounding the exact value \<open>x\<close> to nearest, ties to
  even (IEEE 754, 4.3.1): \<open>y\<close> is a binary64 number, no binary64 number is nearer to \<open>x\<close>, and
  if another one is as near, the significand of \<open>y\<close> is even. This is the rounding written
  without the way to compute it; \<open>round_binary64\<close> is proved to be the one function that
  satisfies it below the overflow threshold.
\<close>

definition binary64_of :: "rat \<Rightarrow> rat \<Rightarrow> bool" where
  "binary64_of x y =
     (is_binary64 y
      \<and> (\<forall>z. is_binary64 z \<longrightarrow> \<bar>x - y\<bar> \<le> \<bar>x - z\<bar>)
      \<and> (\<forall>z. is_binary64 z \<and> z \<noteq> y \<and> \<bar>x - z\<bar> = \<bar>x - y\<bar> \<longrightarrow> even_significand y))"

text \<open>The rational a finite number denotes (0 for an infinity and for NaN).\<close>

definition finite_value :: "jsnum \<Rightarrow> rat" where
  "finite_value v = (case v of Fin x \<Rightarrow> x | PInf \<Rightarrow> 0 | NInf \<Rightarrow> 0 | NaN \<Rightarrow> 0)"

section \<open>Binary64 rounding\<close>

lemma powi_nat: "0 \<le> k \<Longrightarrow> (2::rat) powi k = 2 ^ nat k"
  by (simp add: power_int_def)

lemma powi_neg: "k \<le> 0 \<Longrightarrow> (2::rat) powi k = 1 / 2 ^ nat (- k)"
  by (cases "k = 0") (simp_all add: power_int_def field_simps)

lemma ilog2_lower:
  assumes "0 < x"
  shows "2 powi (ilog2 x) \<le> x"
proof (cases "1 \<le> x")
  case True
  define n where "n = \<lfloor>x\<rfloor>"
  have n1: "1 \<le> n" using True by (simp add: n_def le_floor_iff)
  then have b: "2 ^ nat (bitlen n - 1) \<le> n" using bitlen_bounds[of n] by simp
  have "1 \<le> bitlen n" using n1 by (simp add: bitlen_alt_def)
  then have "(2::rat) powi (bitlen n - 1) = 2 ^ nat (bitlen n - 1)" by (simp add: powi_nat)
  also have "\<dots> = of_int (2 ^ nat (bitlen n - 1))" by simp
  also have "\<dots> \<le> of_int n" using b by (simp only: of_int_le_iff)
  also have "\<dots> \<le> x" by (simp add: n_def)
  finally show ?thesis using True by (simp add: ilog2_def n_def)
next
  case False
  define m where "m = \<lceil>1 / x\<rceil> - 1"
  have y: "1 < 1 / x" using False assms by (simp add: field_simps)
  then have m1: "1 \<le> m" unfolding m_def by (simp add: less_ceiling_iff)
  have "1 / x \<le> of_int (m + 1)" unfolding m_def by (simp add: le_of_int_ceiling)
  moreover have "m + 1 \<le> 2 ^ nat (bitlen m)" using bitlen_bounds[of m] m1 by simp
  then have "(of_int (m + 1) :: rat) \<le> of_int (2 ^ nat (bitlen m))" by (simp only: of_int_le_iff)
  ultimately have "1 / x \<le> 2 ^ nat (bitlen m)" by simp
  then have "1 / 2 ^ nat (bitlen m) \<le> x" using assms by (simp add: field_simps)
  moreover have "(2::rat) powi (- bitlen m) = 1 / 2 ^ nat (bitlen m)"
    using bitlen_nonneg[of m] by (simp add: powi_neg)
  ultimately show ?thesis using False by (simp add: ilog2_def m_def)
qed

lemma ilog2_upper:
  assumes "0 < x"
  shows "x < 2 powi (ilog2 x + 1)"
proof (cases "1 \<le> x")
  case True
  define n where "n = \<lfloor>x\<rfloor>"
  have n1: "1 \<le> n" using True by (simp add: n_def le_floor_iff)
  then have b: "n + 1 \<le> 2 ^ nat (bitlen n)" using bitlen_bounds[of n] by simp
  have "x < of_int (n + 1)" unfolding n_def using floor_correct[of x] by simp
  also have "\<dots> \<le> of_int (2 ^ nat (bitlen n))" using b by (simp only: of_int_le_iff)
  also have "\<dots> = 2 powi (bitlen n)" using bitlen_nonneg[of n] by (simp add: powi_nat)
  finally show ?thesis using True by (simp add: ilog2_def n_def)
next
  case False
  define m where "m = \<lceil>1 / x\<rceil> - 1"
  have y: "1 < 1 / x" using False assms by (simp add: field_simps)
  then have m1: "1 \<le> m" unfolding m_def by (simp add: less_ceiling_iff)
  have b: "2 ^ nat (bitlen m - 1) \<le> m" using bitlen_bounds[of m] m1 by simp
  have bl: "1 \<le> bitlen m" using m1 by (simp add: bitlen_alt_def)
  have "(2::rat) ^ nat (bitlen m - 1) = of_int (2 ^ nat (bitlen m - 1))" by simp
  also have "\<dots> \<le> of_int m" using b by (simp only: of_int_le_iff)
  also have "\<dots> < 1 / x" unfolding m_def using ceiling_correct[of "1 / x"] by simp
  finally have "x < 1 / 2 ^ nat (bitlen m - 1)" using assms by (simp add: field_simps)
  moreover have "(2::rat) powi (- bitlen m + 1) = 1 / 2 ^ nat (bitlen m - 1)"
    using bl powi_neg[of "- bitlen m + 1"] by simp
  ultimately show ?thesis using False by (simp add: ilog2_def m_def)
qed

lemma powi_less_D: "(2::rat) powi a < 2 powi b \<Longrightarrow> a < b"
  using power_int_increasing[of b a "2::rat"] by (cases "a < b") auto

lemma ilog2_eqI:
  assumes "2 powi k \<le> x" and "x < 2 powi (k + 1)"
  shows "ilog2 x = k"
proof -
  have pos: "0 < x" using assms(1) zero_less_power_int[of "2::rat" k] by linarith
  have "2 powi k < (2::rat) powi (ilog2 x + 1)"
    using assms(1) ilog2_upper[OF pos] by linarith
  then have "k < ilog2 x + 1" by (rule powi_less_D)
  moreover have "2 powi (ilog2 x) < (2::rat) powi (k + 1)"
    using assms(2) ilog2_lower[OF pos] by linarith
  then have "ilog2 x < k + 1" by (rule powi_less_D)
  ultimately show ?thesis by linarith
qed

lemma round_binary64_binade:
  assumes "2 powi k \<le> \<bar>x\<bar>" and "\<bar>x\<bar> < 2 powi (k + 1)" and "- 1022 \<le> k"
  shows "round_binary64 x = of_int (round_half_even (x / 2 powi (k - 52))) * 2 powi (k - 52)"
proof -
  have "ilog2 \<bar>x\<bar> = k" using assms(1,2) by (rule ilog2_eqI)
  moreover have "0 < \<bar>x\<bar>" using assms(1) zero_less_power_int[of "2::rat" k] by linarith
  then have "x \<noteq> 0" by simp
  ultimately show ?thesis using assms(3) by (simp add: round_binary64_def quantum_def max_def)
qed

lemma round_half_even_int: "round_half_even (of_int i) = i"
  by (simp add: round_half_even_def)

lemma round_half_even_frac:
  assumes "0 < q"
  shows "round_half_even (of_int p / of_int q) =
    (if 2 * (p mod q) < q then p div q else if q < 2 * (p mod q) then p div q + 1
     else if even (p div q) then p div q else p div q + 1)"
proof -
  have f: "\<lfloor>(of_int p / of_int q :: rat)\<rfloor> = p div q" by (rule floor_divide_of_int_eq)
  have "of_int p = (of_int (p div q) * of_int q + of_int (p mod q) :: rat)"
    by (metis div_mult_mod_eq of_int_add of_int_mult)
  then have d: "(of_int p / of_int q :: rat) - of_int (p div q) = of_int (p mod q) / of_int q"
    using assms by (simp add: field_simps)
  have lt: "(of_int (p mod q) / of_int q < (1 / 2 :: rat)) = (2 * (p mod q) < q)"
  proof -
    have "(of_int (p mod q) / of_int q < (1 / 2 :: rat)) = ((of_int (2 * (p mod q)) :: rat) < of_int q)"
      using assms by (simp add: field_simps)
    then show ?thesis by (simp only: of_int_less_iff)
  qed
  have gt: "((1 / 2 :: rat) < of_int (p mod q) / of_int q) = (q < 2 * (p mod q))"
  proof -
    have "((1 / 2 :: rat) < of_int (p mod q) / of_int q) = ((of_int q :: rat) < of_int (2 * (p mod q)))"
      using assms by (simp add: field_simps)
    then show ?thesis by (simp only: of_int_less_iff)
  qed
  show ?thesis
    unfolding round_half_even_def Let_def f d lt gt by (rule refl)
qed

lemma round_half_even_numeral_div:
  "round_half_even (numeral a / numeral b) =
    (if 2 * (numeral a mod numeral b) < (numeral b :: int) then numeral a div numeral b
     else if numeral b < 2 * (numeral a mod numeral b :: int) then numeral a div numeral b + 1
     else if even (numeral a div numeral b :: int) then numeral a div numeral b
     else numeral a div numeral b + 1)"
  using round_half_even_frac[of "numeral b" "numeral a"] by simp

lemma round_half_even_numeral: "round_half_even (numeral a) = numeral a"
  using round_half_even_int[of "numeral a"] by simp

lemma round_half_even_ge:
  assumes "of_int n \<le> x"
  shows "n \<le> round_half_even x"
proof -
  have "n \<le> \<lfloor>x\<rfloor>" using assms by (simp add: le_floor_iff)
  then show ?thesis by (simp add: round_half_even_def Let_def)
qed

text \<open>Integers below \<open>2 ^ 53\<close> are binary64 values.\<close>

lemma round_binary64_of_int:
  assumes "\<bar>i\<bar> < 2 ^ 53"
  shows "round_binary64 (of_int i) = of_int i"
proof (cases "i = 0")
  case True
  then show ?thesis by (simp add: round_binary64_def)
next
  case False
  define x :: rat where "x = \<bar>of_int i\<bar>"
  define k where "k = ilog2 x"
  have "1 \<le> \<bar>i\<bar>" using False by linarith
  then have "(of_int 1 :: rat) \<le> of_int \<bar>i\<bar>" by (simp only: of_int_le_iff)
  then have x1: "1 \<le> x" unfolding x_def by simp
  then have pos: "0 < x" by linarith
  have lo: "2 powi k \<le> x" and hi: "x < 2 powi (k + 1)"
    unfolding k_def using ilog2_lower[OF pos] ilog2_upper[OF pos] by auto
  have "(2::rat) powi 0 < 2 powi (k + 1)" using x1 hi by simp
  then have k0: "0 \<le> k" using powi_less_D[of 0 "k + 1"] by linarith
  have "x < 2 ^ 53" using assms unfolding x_def
    by (metis of_int_abs of_int_less_iff of_int_numeral of_int_power)
  then have "(2::rat) powi k < 2 powi 53" using lo by simp
  then have k52: "k \<le> 52" using powi_less_D[of k 53] by linarith
  have q: "(2::rat) powi (k - 52) = 1 / 2 ^ nat (52 - k)"
    using k52 powi_neg[of "k - 52"] by simp
  have "of_int i / (2::rat) powi (k - 52) = of_int (i * 2 ^ nat (52 - k))"
    by (simp add: q)
  then have r: "round_half_even (of_int i / (2::rat) powi (k - 52)) = i * 2 ^ nat (52 - k)"
    by (simp only: round_half_even_int)
  have "round_binary64 (of_int i) =
      of_int (round_half_even (of_int i / 2 powi (k - 52))) * 2 powi (k - 52)"
    using lo hi k0 by (intro round_binary64_binade) (simp_all add: x_def)
  then have "round_binary64 (of_int i) = of_int (i * 2 ^ nat (52 - k)) * 2 powi (k - 52)"
    by (simp only: r)
  then show ?thesis by (simp add: q)
qed

lemma to_double_of_int:
  assumes "\<bar>i\<bar> < 2 ^ 53"
  shows "to_double (of_int i) = Fin (of_int i)"
proof -
  have "\<bar>of_int i :: rat\<bar> < 2 ^ 53" using assms
    by (metis of_int_abs of_int_less_iff of_int_numeral of_int_power)
  moreover have "(2::rat) ^ 53 < 2 ^ 1024" by simp
  ultimately have "\<bar>of_int i :: rat\<bar> < 2 ^ 1024" by linarith
  then show ?thesis
    by (simp add: to_double_def round_binary64_of_int[OF assms] Let_def abs_less_iff not_le)
qed

lemma to_double_numeral:
  "numeral n < (2 ^ 53 :: int) \<Longrightarrow> to_double (numeral n) = Fin (numeral n)"
  using to_double_of_int[of "numeral n"] by simp

lemma to_double_0: "to_double 0 = Fin 0"
  using to_double_of_int[of 0] by simp

lemma to_double_1: "to_double 1 = Fin 1"
  using to_double_of_int[of 1] by simp

text \<open>Rounding keeps a number that is at least 1 at least 1.\<close>

lemma round_binary64_ge_1:
  assumes "1 \<le> x"
  shows "1 \<le> round_binary64 x"
proof -
  define k where "k = ilog2 x"
  have pos: "0 < x" using assms by linarith
  have lo: "2 powi k \<le> x" and hi: "x < 2 powi (k + 1)"
    unfolding k_def using ilog2_lower[OF pos] ilog2_upper[OF pos] by auto
  have "(2::rat) powi 0 < 2 powi (k + 1)" using assms hi by simp
  then have k0: "0 \<le> k" using powi_less_D[of 0 "k + 1"] by linarith
  define q :: rat where "q = 2 powi (k - 52)"
  have qpos: "0 < q" unfolding q_def by simp
  have "(2::rat) powi (52 + (k - 52)) = 2 powi 52 * 2 powi (k - 52)"
    by (rule power_int_add) simp
  then have split: "(2::rat) powi k = 2 powi 52 * q" unfolding q_def by simp
  have "(2::rat) powi 52 * q \<le> x" using lo split by simp
  then have "(2::rat) ^ 52 \<le> x / q" using qpos by (simp add: field_simps)
  then have "of_int (2 ^ 52) \<le> x / q" by simp
  then have "(2 ^ 52 :: int) \<le> round_half_even (x / q)" by (rule round_half_even_ge)
  then have "(of_int (2 ^ 52) :: rat) \<le> of_int (round_half_even (x / q))"
    by (simp only: of_int_le_iff)
  then have le: "of_int (2 ^ 52) * q \<le> of_int (round_half_even (x / q)) * q"
    using qpos by (simp only: mult_le_cancel_right_pos)
  have r: "round_binary64 x = of_int (round_half_even (x / q)) * q"
    unfolding q_def using lo hi k0 pos by (intro round_binary64_binade) simp_all
  have "1 \<le> (2::rat) powi k" using k0 by (simp add: powi_nat)
  also have "\<dots> = of_int (2 ^ 52) * q" using split by simp
  also have "\<dots> \<le> of_int (round_half_even (x / q)) * q" by (rule le)
  also have "\<dots> = round_binary64 x" by (simp only: r)
  finally show ?thesis .
qed

lemma round_binary64_nonneg:
  assumes "0 \<le> x"
  shows "0 \<le> round_binary64 x"
proof (cases "x = 0")
  case True
  then show ?thesis by (simp add: round_binary64_def)
next
  case False
  have q: "0 < quantum x" by (simp add: quantum_def)
  then have "of_int 0 \<le> x / quantum x" using assms by simp
  then have "0 \<le> round_half_even (x / quantum x)" by (rule round_half_even_ge)
  then have "0 \<le> (of_int (round_half_even (x / quantum x)) :: rat)" by simp
  then show ?thesis using q False by (simp add: round_binary64_def)
qed

lemma at_least_to_double_0: "0 \<le> x \<Longrightarrow> at_least 0 (to_double x)"
  using round_binary64_nonneg[of x] by (simp add: to_double_def at_least_def Let_def)

lemma at_least_to_double_1: "1 \<le> x \<Longrightarrow> at_least 1 (to_double x)"
  using round_binary64_ge_1[of x] by (simp add: to_double_def at_least_def Let_def)

lemma at_least_Number_0: "at_least 0 (Number c)"
  by (simp add: Number_def at_least_to_double_0)

lemma at_least_Number_1: "0 < c \<Longrightarrow> at_least 1 (Number c)"
  by (simp add: Number_def at_least_to_double_1)

lemma at_least_Fin: "at_least r (Fin x) = (r \<le> x)"
  by (simp add: at_least_def)

lemma at_least_simps: "at_least r PInf" "\<not> at_least r NInf" "\<not> at_least r NaN"
  by (simp_all add: at_least_def)

lemma at_least_fadd_0: "at_least 0 a \<Longrightarrow> at_least 0 b \<Longrightarrow> at_least 0 (fadd a b)"
  by (cases a; cases b) (simp_all add: at_least_Fin at_least_simps at_least_to_double_0)

lemma at_least_fadd_1_left: "at_least 1 a \<Longrightarrow> at_least 0 b \<Longrightarrow> at_least 1 (fadd a b)"
  by (cases a; cases b) (simp_all add: at_least_Fin at_least_simps at_least_to_double_1)

lemma at_least_fadd_1_right: "at_least 0 a \<Longrightarrow> at_least 1 b \<Longrightarrow> at_least 1 (fadd a b)"
  by (cases a; cases b) (simp_all add: at_least_Fin at_least_simps at_least_to_double_1)

lemma foldl_counts_at_least_1:
  "at_least 1 acc \<Longrightarrow> at_least 1 (foldl (\<lambda>sum count. fadd sum (Number count)) acc cs)"
  by (induction cs arbitrary: acc) (simp_all add: at_least_fadd_1_left at_least_Number_0)

lemma foldl_counts_positive:
  "at_least 0 acc \<Longrightarrow> 0 < sum_list cs \<Longrightarrow>
   at_least 1 (foldl (\<lambda>sum count. fadd sum (Number count)) acc cs)"
proof (induction cs arbitrary: acc)
  case Nil
  then show ?case by simp
next
  case (Cons c cs)
  show ?case
  proof (cases "0 < c")
    case True
    then have "at_least 1 (fadd acc (Number c))"
      using Cons.prems(1) by (simp add: at_least_fadd_1_right at_least_Number_1)
    then show ?thesis by (simp add: foldl_counts_at_least_1)
  next
    case False
    then have "0 < sum_list cs" using Cons.prems(2) by simp
    moreover have "at_least 0 (fadd acc (Number c))"
      using Cons.prems(1) by (simp add: at_least_fadd_0 at_least_Number_0)
    ultimately show ?thesis using Cons.IH by simp
  qed
qed

lemma reduce_totalItems_positive:
  assumes "0 < sum_list (Object_values backendItems)"
  shows "at_least 1 (reduce_totalItems backendItems)"
  unfolding reduce_totalItems_def using assms
  by (intro foldl_counts_positive) (simp_all add: at_least_def)

lemma reduce_totalItems_nonzero:
  "0 < sum_list (Object_values backendItems) \<Longrightarrow> reduce_totalItems backendItems \<noteq> Fin 0"
  using reduce_totalItems_positive[of backendItems] by (auto simp: at_least_def)

lemma foldl_counts_exact:
  "a + sum_list cs < 2 ^ 53 \<Longrightarrow>
   foldl (\<lambda>sum count. fadd sum (Number count)) (Fin (of_nat a)) cs = Fin (of_nat (a + sum_list cs))"
proof (induction cs arbitrary: a)
  case Nil
  then show ?case by simp
next
  case (Cons c cs)
  have c: "c < 2 ^ 53" and ac: "a + c < 2 ^ 53" using Cons.prems by simp_all
  have "\<bar>int c\<bar> < 2 ^ 53" using c by simp
  then have n: "Number c = Fin (of_nat c)"
    using to_double_of_int[of "int c"] by (simp add: Number_def)
  have "\<bar>int (a + c)\<bar> < 2 ^ 53" using ac by (simp only: abs_of_nat of_nat_less_numeral_power_cancel_iff)
  then have "to_double (of_nat a + of_nat c) = Fin (of_nat (a + c))"
    using to_double_of_int[of "int (a + c)"] by simp
  then have "fadd (Fin (of_nat a)) (Number c) = Fin (of_nat (a + c))" by (simp add: n)
  then show ?case using Cons.IH[of "a + c"] Cons.prems by (simp add: add.assoc)
qed

lemma reduce_totalItems_exact:
  assumes "sum_list (Object_values backendItems) < 2 ^ 53"
  shows "reduce_totalItems backendItems = Fin (of_nat (sum_list (Object_values backendItems)))"
  unfolding reduce_totalItems_def using foldl_counts_exact[of 0 "Object_values backendItems"] assms
  by simp

lemma reduce_totalItems_zero:
  assumes "sum_list (Object_values backendItems) = 0"
  shows "reduce_totalItems backendItems = Fin 0"
  using reduce_totalItems_exact[of backendItems] assms by simp

lemma prop_get_Own: "map_of obj k = Some v \<Longrightarrow> prop_get obj k = Own v"
  by (simp add: prop_get_def)

text \<open>
  \<open>round_half_even\<close> gives an integer nearest to its argument, within one half of it, and an
  even one when two integers are as near.
\<close>

lemma round_half_even_cases:
  obtains "t - of_int \<lfloor>t\<rfloor> < 1 / 2" and "round_half_even t = \<lfloor>t\<rfloor>"
  | "1 / 2 < t - of_int \<lfloor>t\<rfloor>" and "round_half_even t = \<lfloor>t\<rfloor> + 1"
  | "t - of_int \<lfloor>t\<rfloor> = 1 / 2" and "even \<lfloor>t\<rfloor>" and "round_half_even t = \<lfloor>t\<rfloor>"
  | "t - of_int \<lfloor>t\<rfloor> = 1 / 2" and "odd \<lfloor>t\<rfloor>" and "round_half_even t = \<lfloor>t\<rfloor> + 1"
  unfolding round_half_even_def Let_def by (cases "t - of_int \<lfloor>t\<rfloor>" "1 / 2 :: rat" rule: linorder_cases) auto

lemma round_half_even_nearest: "\<bar>t - of_int (round_half_even t)\<bar> \<le> \<bar>t - of_int j\<bar>"
proof -
  define f where "f = \<lfloor>t\<rfloor>"
  have f: "of_int f \<le> t" "t < of_int f + 1" unfolding f_def by linarith+
  have "j \<le> f \<or> f + 1 \<le> j" by linarith
  then have j: "(of_int j :: rat) \<le> of_int f \<or> (of_int f :: rat) + 1 \<le> of_int j"
    by (metis of_int_le_iff of_int_add of_int_1)
  show ?thesis
  proof (cases t rule: round_half_even_cases)
    case 1
    then show ?thesis using f j unfolding f_def by (simp only: of_int_add of_int_1) linarith
  next
    case 2
    then show ?thesis using f j unfolding f_def by (simp only: of_int_add of_int_1) linarith
  next
    case 3
    then show ?thesis using f j unfolding f_def by (simp only: of_int_add of_int_1) linarith
  next
    case 4
    then show ?thesis using f j unfolding f_def by (simp only: of_int_add of_int_1) linarith
  qed
qed

lemma round_half_even_tie:
  assumes "j \<noteq> round_half_even t"
    and "\<bar>t - of_int j\<bar> = \<bar>t - of_int (round_half_even t)\<bar>"
  shows "even (round_half_even t)"
proof -
  define f where "f = \<lfloor>t\<rfloor>"
  have f: "of_int f \<le> t" "t < of_int f + 1" unfolding f_def by linarith+
  have l: "(of_int j :: rat) \<le> of_int i - 1 \<or> (of_int i :: rat) + 1 \<le> of_int j" if "j \<noteq> i" for i
  proof -
    have "j \<le> i - 1 \<or> i + 1 \<le> j" using that by linarith
    then show ?thesis by (metis of_int_le_iff of_int_add of_int_diff of_int_1)
  qed
  show ?thesis
  proof (cases t rule: round_half_even_cases)
    case 1
    have "j \<noteq> f" using assms(1) 1 by (simp add: f_def)
    from l[OF this] have "\<bar>t - of_int j\<bar> \<noteq> \<bar>t - of_int f\<bar>"
      using 1(1) f unfolding f_def[symmetric] by linarith
    then show ?thesis using assms(2) 1 by (simp add: f_def)
  next
    case 2
    have "j \<noteq> f + 1" using assms(1) 2 by (simp add: f_def)
    from l[OF this] have "\<bar>t - of_int j\<bar> \<noteq> \<bar>t - (of_int f + 1)\<bar>"
      using 2(1) f unfolding f_def[symmetric] by (simp only: of_int_add of_int_1) linarith
    then show ?thesis using assms(2) 2 by (simp add: f_def)
  next
    case 3
    then show ?thesis by simp
  next
    case 4
    then show ?thesis by simp
  qed
qed

lemma round_half_even_le:
  assumes "x \<le> of_int n"
  shows "round_half_even x \<le> n"
proof (cases "x = of_int n")
  case True
  then show ?thesis by (simp add: round_half_even_int)
next
  case False
  then have "x < of_int n" using assms by simp
  then have "\<lfloor>x\<rfloor> < n" by (simp add: floor_less_iff)
  then show ?thesis by (simp add: round_half_even_def Let_def)
qed

lemma round_half_even_half: "\<bar>t - of_int (round_half_even t)\<bar> \<le> 1 / 2"
proof -
  have "of_int \<lfloor>t\<rfloor> \<le> t" and "t < of_int \<lfloor>t\<rfloor> + 1" by linarith+
  moreover have "\<bar>t - of_int (round_half_even t)\<bar> \<le> \<bar>t - of_int \<lfloor>t\<rfloor>\<bar>"
    by (rule round_half_even_nearest)
  moreover have "\<bar>t - of_int (round_half_even t)\<bar> \<le> \<bar>t - (of_int \<lfloor>t\<rfloor> + 1)\<bar>"
    using round_half_even_nearest[of t "\<lfloor>t\<rfloor> + 1"] by (simp only: of_int_add of_int_1)
  ultimately show ?thesis by linarith
qed

text \<open>The same on the multiples of a positive \<open>q\<close>.\<close>

lemma lattice_nearest:
  assumes "0 < q"
  shows "\<bar>x - of_int (round_half_even (x / q)) * q\<bar> \<le> \<bar>x - of_int j * q\<bar>"
proof -
  have e: "\<bar>x - of_int i * q\<bar> = \<bar>x / q - of_int i\<bar> * q" for i
  proof -
    have "x - of_int i * q = (x / q - of_int i) * q" using assms by (simp add: field_simps)
    then show ?thesis using assms by (simp add: abs_mult)
  qed
  show ?thesis unfolding e using assms round_half_even_nearest[of "x / q" j]
    by (simp only: mult_le_cancel_right_pos)
qed

lemma lattice_tie:
  assumes "0 < q" and "of_int j * q \<noteq> of_int (round_half_even (x / q)) * q"
    and "\<bar>x - of_int j * q\<bar> = \<bar>x - of_int (round_half_even (x / q)) * q\<bar>"
  shows "even (round_half_even (x / q))"
proof -
  have e: "\<bar>x - of_int i * q\<bar> = \<bar>x / q - of_int i\<bar> * q" for i
  proof -
    have "x - of_int i * q = (x / q - of_int i) * q" using assms(1) by (simp add: field_simps)
    then show ?thesis using assms(1) by (simp add: abs_mult)
  qed
  have "j \<noteq> round_half_even (x / q)" using assms(2) by auto
  moreover have "\<bar>x / q - of_int j\<bar> = \<bar>x / q - of_int (round_half_even (x / q))\<bar>"
    using assms(3) assms(1) unfolding e by simp
  ultimately show ?thesis by (rule round_half_even_tie)
qed

text \<open>
  The multiples of \<open>quantum x\<close> are the binary64 numbers of the binade of \<open>x\<close>, and every binary64
  number with a smaller exponent is farther from \<open>x\<close> than the rounded value is.
\<close>

lemma is_binary64_0: "is_binary64 0"
  unfolding is_binary64_def by (rule exI[of _ 0], rule exI[of _ 0]) simp

lemma powi_shift: "e \<le> (E::int) \<Longrightarrow> (2::rat) powi E = 2 ^ nat (E - e) * 2 powi e"
proof -
  assume "e \<le> E"
  have "(2::rat) powi ((E - e) + e) = 2 powi (E - e) * 2 powi e" by (rule power_int_add) simp
  then show ?thesis using \<open>e \<le> E\<close> by (simp add: powi_nat)
qed

lemma of_int_powi_lattice:
  "E \<le> e \<Longrightarrow> of_int m * (2::rat) powi e = of_int (m * 2 ^ nat (e - E)) * 2 powi E"
  using powi_shift[of E e] by simp

lemma round_binary64_lattice:
  assumes "x \<noteq> 0" and "\<bar>x\<bar> < 2 powi 1023"
  shows "\<exists>E. - 1074 \<le> E \<and> E \<le> 970
    \<and> round_binary64 x = of_int (round_half_even (x / 2 powi E)) * 2 powi E
    \<and> x / 2 powi E < 2 ^ 53 \<and> - (2 ^ 53) < x / 2 powi E
    \<and> (E = - 1074 \<or> 2 ^ 52 \<le> \<bar>x / 2 powi E\<bar>)
    \<and> (\<forall>m e. \<bar>m\<bar> < 2 ^ 53 \<longrightarrow> - 1074 \<le> e \<longrightarrow> e < E \<longrightarrow>
           \<bar>x - of_int (round_half_even (x / 2 powi E)) * 2 powi E\<bar> < \<bar>x - of_int m * 2 powi e\<bar>)"
proof -
  define k where "k = ilog2 \<bar>x\<bar>"
  define E where "E = max k (- 1022) - 52"
  define q :: rat where "q = 2 powi E"
  define M where "M = round_half_even (x / q)"
  have pos: "0 < \<bar>x\<bar>" using assms(1) by simp
  have lo: "2 powi k \<le> \<bar>x\<bar>" and hi: "\<bar>x\<bar> < 2 powi (k + 1)"
    unfolding k_def using ilog2_lower[OF pos] ilog2_upper[OF pos] by auto
  have "(2::rat) powi k < 2 powi 1023" using lo assms(2) by linarith
  then have k1023: "k < 1023" by (rule powi_less_D)
  have E: "- 1074 \<le> E" "E \<le> 970" "k \<le> E + 52" unfolding E_def using k1023 by auto
  have qpos: "0 < q" unfolding q_def by simp
  have rb: "round_binary64 x = of_int M * q"
    using assms(1) by (simp add: round_binary64_def quantum_def M_def q_def E_def k_def)
  have q53: "(2::rat) powi (E + 53) = 2 ^ 53 * q"
    unfolding q_def using powi_shift[of E "E + 53"] by simp
  have q52: "(2::rat) powi (E + 52) = 2 ^ 52 * q"
    unfolding q_def using powi_shift[of E "E + 52"] by simp
  have "(2::rat) powi (k + 1) \<le> 2 powi (E + 53)" using E(3) by (intro power_int_increasing) simp_all
  then have "\<bar>x\<bar> < 2 ^ 53 * q" using hi q53 by linarith
  then have "x < 2 ^ 53 * q" and "- (2 ^ 53) * q < x" by linarith+
  then have tb: "x / q < 2 ^ 53" "- (2 ^ 53) < x / q"
    using qpos by (simp_all only: pos_divide_less_eq pos_less_divide_eq)
  have t52: "2 ^ 52 \<le> \<bar>x / q\<bar>" if "E + 52 = k"
  proof -
    have "2 ^ 52 * q \<le> \<bar>x\<bar>" using lo q52 that by simp
    then have "2 ^ 52 \<le> \<bar>x\<bar> / q" using qpos by (simp only: pos_le_divide_eq)
    then show ?thesis using qpos by simp
  qed
  have normal: "E = - 1074 \<or> 2 ^ 52 \<le> \<bar>x / q\<bar>"
  proof (cases "- 1022 \<le> k")
    case True
    then have "E + 52 = k" unfolding E_def by simp
    then show ?thesis using t52 by simp
  next
    case False
    then show ?thesis unfolding E_def by simp
  qed
  have int: "\<bar>x - of_int M * q\<bar> \<le> \<bar>x - of_int j * q\<bar>" for j
    unfolding M_def using qpos by (rule lattice_nearest)
  have far: "\<bar>x - of_int M * q\<bar> < \<bar>x - of_int m * 2 powi e\<bar>"
    if z: "\<bar>m\<bar> < 2 ^ 53" "- 1074 \<le> e" "e < E" for m e
  proof -
    have kE: "E + 52 = k" using z(2,3) unfolding E_def by (simp add: max_def split: if_splits)
    have "\<bar>of_int m * (2::rat) powi e\<bar> = of_int \<bar>m\<bar> * 2 powi e" by (simp add: abs_mult)
    also have "\<dots> \<le> of_int \<bar>m\<bar> * 2 powi (E - 1)"
      using z(3) by (intro mult_left_mono power_int_increasing) simp_all
    also have "\<dots> < 2 ^ 53 * 2 powi (E - 1)"
    proof -
      have "(of_int \<bar>m\<bar> :: rat) < of_int (2 ^ 53)" using z(1) by (simp only: of_int_less_iff)
      then show ?thesis by simp
    qed
    also have "\<dots> = 2 powi (E + 52)" using powi_shift[of "E - 1" "E + 52"] by simp
    finally have zk: "\<bar>of_int m * (2::rat) powi e\<bar> < 2 powi k" using kE by simp
    define j0 :: int where "j0 = (if 0 < x then 2 ^ 52 else - (2 ^ 52))"
    have "of_int j0 * q = (if 0 < x then 2 powi k else - (2 powi k))"
      using q52 kE by (simp add: j0_def)
    then have "\<bar>x - of_int j0 * q\<bar> = \<bar>x\<bar> - 2 powi k"
      using lo assms(1) by (auto simp add: abs_if split: if_splits)
    then show ?thesis using int[of j0] zk by linarith
  qed
  show ?thesis
    using E(1,2) rb tb normal far unfolding M_def q_def by (intro exI[of _ E] conjI allI impI)
qed

text \<open>
  \<open>round_binary64\<close> is rounding to nearest, ties to even: below the overflow threshold its value
  satisfies \<open>binary64_of\<close>, and it is the only number that does.
\<close>

lemma round_binary64_correct:
  assumes "\<bar>x\<bar> < 2 powi 1023"
  shows "binary64_of x (round_binary64 x)"
proof (cases "x = 0")
  case True
  then show ?thesis using is_binary64_0 by (simp add: binary64_of_def round_binary64_def)
next
  case False
  obtain E where E: "- 1074 \<le> E" "E \<le> 970"
    and rb: "round_binary64 x = of_int (round_half_even (x / 2 powi E)) * 2 powi E"
    and tb: "x / 2 powi E < 2 ^ 53" "- (2 ^ 53) < x / 2 powi E"
    and normal: "E = - 1074 \<or> 2 ^ 52 \<le> \<bar>x / 2 powi E\<bar>"
    and far: "\<And>m e. \<bar>m\<bar> < 2 ^ 53 \<Longrightarrow> - 1074 \<le> e \<Longrightarrow> e < E \<Longrightarrow>
           \<bar>x - of_int (round_half_even (x / 2 powi E)) * 2 powi E\<bar> < \<bar>x - of_int m * 2 powi e\<bar>"
    using round_binary64_lattice[OF False assms] by blast
  define q :: rat where "q = 2 powi E"
  define M where "M = round_half_even (x / q)"
  have qpos: "0 < q" unfolding q_def by simp
  have Mle: "\<bar>M\<bar> \<le> 2 ^ 53"
  proof -
    have "x / q \<le> of_int (2 ^ 53)" using tb(1) by (simp add: q_def)
    then have "M \<le> 2 ^ 53" unfolding M_def by (rule round_half_even_le)
    moreover have "of_int (- (2 ^ 53)) \<le> x / q" using tb(2) by (simp add: q_def)
    then have "- (2 ^ 53) \<le> M" unfolding M_def by (rule round_half_even_ge)
    ultimately show ?thesis by linarith
  qed
  have Mge: "2 ^ 52 \<le> \<bar>M\<bar>" if t52: "2 ^ 52 \<le> \<bar>x / q\<bar>"
  proof (cases "0 \<le> x / q")
    case True
    then have "of_int (2 ^ 52) \<le> x / q" using t52 by simp
    then have "2 ^ 52 \<le> M" unfolding M_def by (rule round_half_even_ge)
    then show ?thesis by linarith
  next
    case False
    then have "x / q \<le> of_int (- (2 ^ 52))" using t52 by simp
    then have "M \<le> - (2 ^ 52)" unfolding M_def by (rule round_half_even_le)
    then show ?thesis by linarith
  qed
  have rep: "is_binary64 (of_int M * q) \<and> (even M \<longrightarrow> even_significand (of_int M * q))"
  proof (cases "\<bar>M\<bar> < 2 ^ 53")
    case True
    have "2 ^ 52 \<le> \<bar>M\<bar> \<or> E = - 1074" using Mge normal by (auto simp add: q_def)
    moreover have "is_binary64 (of_int M * 2 powi E)"
      unfolding is_binary64_def using True E by - (rule exI[of _ M], rule exI[of _ E], simp)
    moreover have "even_significand (of_int M * 2 powi E)" if "even M" "2 ^ 52 \<le> \<bar>M\<bar> \<or> E = - 1074"
      unfolding even_significand_def using that True E
      by - (rule exI[of _ M], rule exI[of _ E], simp)
    ultimately show ?thesis unfolding q_def by simp
  next
    case False
    then have M53: "\<bar>M\<bar> = 2 ^ 53" using Mle by linarith
    define m where "m = M div 2"
    have "M = 2 ^ 53 \<or> M = - (2 ^ 53)" using M53 by linarith
    then have m': "m = 2 ^ 52 \<or> m = - (2 ^ 52)" unfolding m_def by auto
    have m: "M = 2 * m" "\<bar>m\<bar> = 2 ^ 52" using \<open>M = 2 ^ 53 \<or> M = - (2 ^ 53)\<close> unfolding m_def by auto
    have "(2::rat) powi (E + 1) = 2 * q" unfolding q_def using powi_shift[of E "E + 1"] by simp
    then have y: "of_int M * q = of_int m * 2 powi (E + 1)" using m(1) by simp
    have "even m" using m' by auto
    moreover have "is_binary64 (of_int m * 2 powi (E + 1))"
      unfolding is_binary64_def using m(2) E by - (rule exI[of _ m], rule exI[of _ "E + 1"], simp)
    moreover have "even_significand (of_int m * 2 powi (E + 1))" if "even m"
      unfolding even_significand_def using that m(2) E
      by - (rule exI[of _ m], rule exI[of _ "E + 1"], simp)
    ultimately show ?thesis unfolding y by simp
  qed
  have int: "\<bar>x - of_int M * q\<bar> \<le> \<bar>x - of_int j * q\<bar>" for j
    unfolding M_def using qpos by (rule lattice_nearest)
  have rb': "round_binary64 x = of_int M * q" unfolding M_def q_def by (rule rb)
  show ?thesis unfolding binary64_of_def rb'
  proof (intro conjI allI impI)
    show "is_binary64 (of_int M * q)" using rep by simp
  next
    fix z assume "is_binary64 z"
    then obtain m e where z: "z = of_int m * 2 powi e" "\<bar>m\<bar> < 2 ^ 53" "- 1074 \<le> e"
      unfolding is_binary64_def by blast
    show "\<bar>x - of_int M * q\<bar> \<le> \<bar>x - z\<bar>"
    proof (cases "e < E")
      case True
      then show ?thesis using far[OF z(2,3)] unfolding z(1) M_def q_def by simp
    next
      case False
      then have "z = of_int (m * 2 ^ nat (e - E)) * q"
        unfolding z(1) q_def by (intro of_int_powi_lattice) simp
      then show ?thesis using int[of "m * 2 ^ nat (e - E)"] by (simp only:)
    qed
  next
    fix z assume a: "is_binary64 z \<and> z \<noteq> of_int M * q \<and> \<bar>x - z\<bar> = \<bar>x - of_int M * q\<bar>"
    then obtain m e where z: "z = of_int m * 2 powi e" "\<bar>m\<bar> < 2 ^ 53" "- 1074 \<le> e"
      unfolding is_binary64_def by blast
    have ne: "\<not> e < E" using far[OF z(2,3)] a unfolding z(1) M_def q_def by auto
    define j where "j = m * 2 ^ nat (e - E)"
    have zj: "z = of_int j * q" unfolding j_def z(1) q_def using ne by (intro of_int_powi_lattice) simp
    have "even (round_half_even (x / q))"
      using qpos a unfolding zj M_def by (intro lattice_tie[of q j x]) simp_all
    then show "even_significand (of_int M * q)" using rep by (simp add: M_def)
  qed
qed

lemma binary64_of_unique:
  assumes "\<bar>x\<bar> < 2 powi 1023" and "binary64_of x y"
  shows "y = round_binary64 x"
proof (rule ccontr)
  assume ne: "y \<noteq> round_binary64 x"
  have c0: "binary64_of x (round_binary64 x)" using assms(1) by (rule round_binary64_correct)
  have dy: "is_binary64 y" and b0: "is_binary64 (round_binary64 x)"
    using assms(2) c0 by (simp_all add: binary64_of_def)
  have "\<bar>x - y\<bar> \<le> \<bar>x - round_binary64 x\<bar>" using assms(2) b0 by (simp add: binary64_of_def)
  moreover have "\<bar>x - round_binary64 x\<bar> \<le> \<bar>x - y\<bar>" using c0 dy by (simp add: binary64_of_def)
  ultimately have eq: "\<bar>x - y\<bar> = \<bar>x - round_binary64 x\<bar>" by linarith
  have ev: "even_significand y"
    using assms(2) b0 ne eq unfolding binary64_of_def by metis
  have x0: "x \<noteq> 0"
  proof
    assume "x = 0"
    then show False using eq ne by (simp add: round_binary64_def)
  qed
  obtain E where E: "- 1074 \<le> E" "E \<le> 970"
    and rb: "round_binary64 x = of_int (round_half_even (x / 2 powi E)) * 2 powi E"
    and normal: "E = - 1074 \<or> 2 ^ 52 \<le> \<bar>x / 2 powi E\<bar>"
    and far: "\<And>m e. \<bar>m\<bar> < 2 ^ 53 \<Longrightarrow> - 1074 \<le> e \<Longrightarrow> e < E \<Longrightarrow>
           \<bar>x - of_int (round_half_even (x / 2 powi E)) * 2 powi E\<bar> < \<bar>x - of_int m * 2 powi e\<bar>"
    using round_binary64_lattice[OF x0 assms(1)] by blast
  define q :: rat where "q = 2 powi E"
  define t where "t = x / q"
  define M where "M = round_half_even t"
  have qpos: "0 < q" unfolding q_def by simp
  have rb': "round_binary64 x = of_int M * q" unfolding M_def t_def q_def by (rule rb)
  have scale: "\<bar>x - of_int i * q\<bar> = \<bar>t - of_int i\<bar> * q" for i
  proof -
    have "x - of_int i * q = (t - of_int i) * q" using qpos by (simp add: t_def field_simps)
    then show ?thesis using qpos by (simp add: abs_mult)
  qed
  obtain m e where y: "y = of_int m * 2 powi e" "\<bar>m\<bar> < 2 ^ 53" "- 1074 \<le> e"
    using dy unfolding is_binary64_def by blast
  have eE: "E \<le> e" using far[OF y(2,3)] eq unfolding y(1) rb by (cases "e < E") simp_all
  define j where "j = m * 2 ^ nat (e - E)"
  have yj: "y = of_int j * q" unfolding j_def y(1) q_def using eE by (rule of_int_powi_lattice)
  have jM: "j \<noteq> M" using ne unfolding yj rb' by auto
  have "\<bar>t - of_int j\<bar> * q = \<bar>t - of_int M\<bar> * q" using eq unfolding yj rb' scale .
  then have tie: "\<bar>t - of_int j\<bar> = \<bar>t - of_int M\<bar>" using qpos by simp
  have evM: "even M" unfolding M_def using jM tie unfolding M_def by (rule round_half_even_tie)
  have half: "\<bar>t - of_int M\<bar> \<le> 1 / 2" unfolding M_def by (rule round_half_even_half)
  have "\<bar>(of_int j :: rat) - of_int M\<bar> \<le> 1" using tie half by linarith
  then have "\<bar>(of_int (j - M) :: rat)\<bar> \<le> of_int 1" by simp
  then have "\<bar>j - M\<bar> \<le> 1" by (metis of_int_abs of_int_le_iff)
  then have "j = M + 1 \<or> j = M - 1" using jM by linarith
  then have oddj: "odd j" using evM by auto
  obtain m' e' where s: "y = of_int m' * 2 powi e'" "even m'" "\<bar>m'\<bar> < 2 ^ 53" "- 1074 \<le> e'"
      "2 ^ 52 \<le> \<bar>m'\<bar> \<or> e' = - 1074"
    using ev unfolding even_significand_def by blast
  show False
  proof (cases "E \<le> e'")
    case True
    have "of_int j * q = of_int (m' * 2 ^ nat (e' - E)) * q"
      using yj s(1) of_int_powi_lattice[OF True, of m'] unfolding q_def by simp
    then have "(of_int j :: rat) = of_int (m' * 2 ^ nat (e' - E))" using qpos by simp
    then have "j = m' * 2 ^ nat (e' - E)" by (simp only: of_int_eq_iff)
    then show False using oddj s(2) by simp
  next
    case False
    then have lt: "e' < E" by simp
    then have "E \<noteq> - 1074" using s(4) by linarith
    then have t52: "2 ^ 52 \<le> \<bar>t\<bar>" using normal unfolding t_def q_def by simp
    have "\<bar>(of_int j :: rat)\<bar> \<ge> 2 ^ 52 - 1 / 2" using t52 tie half by linarith
    then have "(of_int \<bar>j\<bar> :: rat) > of_int (2 ^ 52 - 1)" by simp
    then have "\<bar>j\<bar> > 2 ^ 52 - 1" by (simp only: of_int_less_iff)
    then have j52: "2 ^ 52 \<le> \<bar>j\<bar>" by linarith
    have "of_int j * q = of_int (j * 2 ^ nat (E - e')) * 2 powi e'"
      unfolding q_def using lt by (intro of_int_powi_lattice) simp
    then have "of_int m' * (2::rat) powi e' = of_int (j * 2 ^ nat (E - e')) * 2 powi e'"
      using yj s(1) by simp
    then have "(of_int m' :: rat) = of_int (j * 2 ^ nat (E - e'))" by simp
    then have m'j: "m' = j * 2 ^ nat (E - e')" by (simp only: of_int_eq_iff)
    have "(2::int) ^ 1 \<le> 2 ^ nat (E - e')" using lt by (intro power_increasing) simp_all
    then have "2 ^ 52 * 2 \<le> \<bar>j\<bar> * 2 ^ nat (E - e')" using j52 by (intro mult_mono) simp_all
    then have "2 ^ 53 \<le> \<bar>m'\<bar>" unfolding m'j by (simp add: abs_mult)
    then show False using s(3) by linarith
  qed
qed

text \<open>Rounding does not cross a binary64 number, so bounds that are binary64 numbers are kept.\<close>

lemma is_binary64_of_int: "\<bar>i\<bar> < 2 ^ 53 \<Longrightarrow> is_binary64 (of_int i)"
  unfolding is_binary64_def by (rule exI[of _ i], rule exI[of _ 0]) simp

lemma is_binary64_numeral: "numeral n < (2 ^ 53 :: int) \<Longrightarrow> is_binary64 (numeral n)"
  using is_binary64_of_int[of "numeral n"] by simp

lemma is_binary64_power: "n \<le> 971 \<Longrightarrow> is_binary64 (2 ^ n)"
  unfolding is_binary64_def by (rule exI[of _ 1], rule exI[of _ "int n"]) (simp add: powi_nat)

lemma round_binary64_le:
  assumes "is_binary64 z" and "x \<le> z" and "\<bar>x\<bar> < 2 powi 1023"
  shows "round_binary64 x \<le> z"
proof -
  have "\<bar>x - round_binary64 x\<bar> \<le> \<bar>x - z\<bar>"
    using round_binary64_correct[OF assms(3)] assms(1) by (simp add: binary64_of_def)
  then show ?thesis using assms(2) by linarith
qed

lemma round_binary64_ge:
  assumes "is_binary64 z" and "z \<le> x" and "\<bar>x\<bar> < 2 powi 1023"
  shows "z \<le> round_binary64 x"
proof -
  have "\<bar>x - round_binary64 x\<bar> \<le> \<bar>x - z\<bar>"
    using round_binary64_correct[OF assms(3)] assms(1) by (simp add: binary64_of_def)
  then show ?thesis using assms(2) by linarith
qed

lemma to_double_range:
  assumes "0 \<le> x" and "x \<le> 2 ^ n" and "n \<le> 971"
  shows "to_double x = Fin (round_binary64 x)" and "0 \<le> round_binary64 x"
    and "round_binary64 x \<le> 2 ^ n" and "binary64_of x (round_binary64 x)"
proof -
  have "(2::rat) ^ n \<le> 2 ^ 971" using assms(3) by (intro power_increasing) simp_all
  also have "\<dots> < (2::rat) ^ 1023" by simp
  finally have "x < 2 ^ 1023" using assms(2) by linarith
  then have b: "\<bar>x\<bar> < 2 powi 1023" using assms(1) by (simp add: powi_nat)
  show c: "binary64_of x (round_binary64 x)" using b by (rule round_binary64_correct)
  show nn: "0 \<le> round_binary64 x" using assms(1) by (rule round_binary64_nonneg)
  show le: "round_binary64 x \<le> 2 ^ n"
    using is_binary64_power[OF assms(3)] assms(2) b by (rule round_binary64_le)
  have "round_binary64 x < 2 ^ 1024"
    using le \<open>(2::rat) ^ n \<le> 2 ^ 971\<close> by (simp add: order.strict_trans1)
  then show "to_double x = Fin (round_binary64 x)"
    using nn unfolding to_double_def Let_def by (simp add: not_le)
qed

lemma round_binary64_numeral:
  "numeral n < (2 ^ 53 :: int) \<Longrightarrow> round_binary64 (numeral n) = numeral n"
  using round_binary64_of_int[of "numeral n"] by simp


section \<open>Room names\<close>

lemma backendItems_init_backend_of: "backendItems_init = backend_of (\<lambda>k. 0)"
  by (simp add: backendItems_init_def backend_of_def)

lemma forEach_body_recognized:
  assumes "map_of frontendItems k = Some v" and "map_of roomMapping k = Some b"
  shows "forEach_body frontendItems (backend_of g) k = backend_of (g(k := v))"
proof -
  have "k = ''Living Room'' \<or> k = ''Terrace'' \<or> k = ''Bedroom'' \<or> k = ''Bathroom''
      \<or> k = ''Kitchen'' \<or> k = ''Dining'' \<or> k = ''Garage''"
    using assms(2) by (simp add: roomMapping_def split: if_splits)
  then show ?thesis
    using assms(1)
    by (elim disjE)
      (simp_all add: forEach_body_def prop_get_def roomMapping_def backend_of_def
        hasOwnProperty_def Object_keys_def)
qed

lemma forEach_body_unrecognized:
  assumes "map_of roomMapping k = None"
  shows "forEach_body frontendItems (backend_of g) k = backend_of (g(k := v))"
proof -
  have ne: "k \<noteq> ''Living Room''" "k \<noteq> ''Terrace''" "k \<noteq> ''Bedroom''" "k \<noteq> ''Bathroom''"
      "k \<noteq> ''Kitchen''" "k \<noteq> ''Dining''" "k \<noteq> ''Garage''"
    using assms by (auto simp: roomMapping_def)
  have "forEach_body frontendItems (backend_of g) k = backend_of g"
    using assms by (simp add: forEach_body_def prop_get_def)
  moreover have "backend_of (g(k := v)) = backend_of g"
    using ne by (simp add: backend_of_def)
  ultimately show ?thesis by simp
qed

lemma forEach_body_backend_of:
  assumes "map_of frontendItems k = Some v"
  shows "forEach_body frontendItems (backend_of g) k = backend_of (g(k := v))"
proof (cases "map_of roomMapping k")
  case None
  then show ?thesis by (rule forEach_body_unrecognized)
next
  case (Some b)
  with assms show ?thesis by (rule forEach_body_recognized)
qed

lemma foldl_forEach_body:
  "set ks \<subseteq> dom (map_of frontendItems) \<Longrightarrow>
   foldl (forEach_body frontendItems) (backend_of g) ks =
     backend_of (\<lambda>k. if k \<in> set ks then count_of frontendItems k else g k)"
proof (induction ks arbitrary: g)
  case Nil
  then show ?case by simp
next
  case (Cons k ks)
  from Cons.prems obtain v where v: "map_of frontendItems k = Some v" by auto
  have sub: "set ks \<subseteq> dom (map_of frontendItems)" using Cons.prems by simp
  have funs: "(\<lambda>k'. if k' \<in> set ks then count_of frontendItems k' else (g(k := v)) k') =
      (\<lambda>k'. if k' \<in> set (k # ks) then count_of frontendItems k' else g k')"
    using v by (auto simp: count_of_def fun_eq_iff)
  have "foldl (forEach_body frontendItems) (backend_of g) (k # ks) =
      foldl (forEach_body frontendItems) (backend_of (g(k := v))) ks"
    by (simp only: foldl_Cons forEach_body_backend_of[OF v])
  also have "\<dots> = backend_of (\<lambda>k'. if k' \<in> set ks then count_of frontendItems k' else (g(k := v)) k')"
    by (rule Cons.IH[OF sub])
  also have "\<dots> = backend_of (\<lambda>k'. if k' \<in> set (k # ks) then count_of frontendItems k' else g k')"
    by (simp only: funs)
  finally show ?case .
qed

text \<open>\<open>mapRoomsToBackend\<close> computes the translation, whatever the order of the keys.\<close>

lemma mapRoomsToBackend_backend_of:
  "mapRoomsToBackend frontendItems = backend_of (count_of frontendItems)"
proof -
  have "set (Object_keys frontendItems) \<subseteq> dom (map_of frontendItems)"
    by (simp add: Object_keys_def dom_map_of_conv_image_fst)
  then have "mapRoomsToBackend frontendItems =
      backend_of (\<lambda>k. if k \<in> set (Object_keys frontendItems) then count_of frontendItems k else 0)"
    unfolding mapRoomsToBackend_def backendItems_init_backend_of by (rule foldl_forEach_body)
  moreover have "(\<lambda>k. if k \<in> set (Object_keys frontendItems) then count_of frontendItems k else 0) =
      count_of frontendItems"
  proof
    fix k
    show "(if k \<in> set (Object_keys frontendItems) then count_of frontendItems k else 0) =
        count_of frontendItems k"
      using map_of_eq_None_iff[of frontendItems k]
      by (auto simp: count_of_def Object_keys_def)
  qed
  ultimately show ?thesis by simp
qed

text \<open>
  \<^bold>\<open>C6.\<close> For every frontend selection, the backend counts of \<open>mapRoomsToBackend\<close> sum to the
  sum of the counts of the seven recognized frontend labels; a key outside these labels adds
  nothing to the sum; and two selections with the same properties in a different order are
  translated to the same backend object.
\<close>

theorem mapRoomsToBackend_sum:
  "sum_list (Object_values (mapRoomsToBackend selection)) =
     (\<Sum>k\<leftarrow>Object_keys roomMapping. count_of selection k)
   \<and> (k \<notin> set (Object_keys roomMapping) \<longrightarrow>
        sum_list (Object_values (mapRoomsToBackend ((k, v) # selection))) =
        sum_list (Object_values (mapRoomsToBackend selection)))
   \<and> (distinct (Object_keys selection) \<and> distinct (Object_keys selection') \<and>
        set selection' = set selection \<longrightarrow>
        mapRoomsToBackend selection' = mapRoomsToBackend selection)"
proof (intro conjI impI)
  show "sum_list (Object_values (mapRoomsToBackend selection)) =
      (\<Sum>k\<leftarrow>Object_keys roomMapping. count_of selection k)"
    by (simp add: mapRoomsToBackend_backend_of backend_of_def Object_values_def Object_keys_def
        roomMapping_def)
next
  assume "k \<notin> set (Object_keys roomMapping)"
  then have "backend_of (count_of ((k, v) # selection)) = backend_of (count_of selection)"
    by (auto simp: backend_of_def count_of_def Object_keys_def roomMapping_def)
  then show "sum_list (Object_values (mapRoomsToBackend ((k, v) # selection))) =
      sum_list (Object_values (mapRoomsToBackend selection))"
    by (simp add: mapRoomsToBackend_backend_of)
next
  assume "distinct (Object_keys selection) \<and> distinct (Object_keys selection') \<and>
    set selection' = set selection"
  then have "map_of selection' = map_of selection"
    by (simp add: Object_keys_def map_of_inject_set)
  then have "count_of selection' = count_of selection"
    by (simp add: fun_eq_iff count_of_def)
  then show "mapRoomsToBackend selection' = mapRoomsToBackend selection"
    by (simp add: mapRoomsToBackend_backend_of)
qed

theorem mapRoomsToBackend_sum_witness:
  "sum_list (Object_values (mapRoomsToBackend [(''Kitchen'', 1), (''Attic'', 5), (''Bedroom'', 2)])) = 3
   \<and> (\<Sum>k\<leftarrow>Object_keys roomMapping. count_of [(''Kitchen'', 1), (''Attic'', 5), (''Bedroom'', 2)] k) = 3
   \<and> ''Attic'' \<notin> set (Object_keys roomMapping)
   \<and> sum_list (Object_values (mapRoomsToBackend ((''Attic'', 5) # [(''Kitchen'', 1), (''Bedroom'', 2)]))) =
       sum_list (Object_values (mapRoomsToBackend [(''Kitchen'', 1), (''Bedroom'', 2)]))
   \<and> distinct (Object_keys [(''Kitchen'', 1), (''Attic'', 5), (''Bedroom'', 2 :: nat)])
   \<and> distinct (Object_keys [(''Bedroom'', 2), (''Kitchen'', 1), (''Attic'', 5 :: nat)])
   \<and> set [(''Bedroom'', 2), (''Kitchen'', 1), (''Attic'', 5 :: nat)] =
       set [(''Kitchen'', 1), (''Attic'', 5), (''Bedroom'', 2)]
   \<and> mapRoomsToBackend [(''Bedroom'', 2), (''Kitchen'', 1), (''Attic'', 5)] =
       mapRoomsToBackend [(''Kitchen'', 1), (''Attic'', 5), (''Bedroom'', 2)]"
proof -
  have a: "''Attic'' \<notin> set (Object_keys roomMapping)"
    by (simp add: Object_keys_def roomMapping_def)
  have d1: "distinct (Object_keys [(''Kitchen'', 1), (''Attic'', 5), (''Bedroom'', 2 :: nat)])"
    by (simp add: Object_keys_def)
  have d2: "distinct (Object_keys [(''Bedroom'', 2), (''Kitchen'', 1), (''Attic'', 5 :: nat)])"
    by (simp add: Object_keys_def)
  have e: "set [(''Bedroom'', 2), (''Kitchen'', 1), (''Attic'', 5 :: nat)] =
      set [(''Kitchen'', 1), (''Attic'', 5), (''Bedroom'', 2)]"
    by auto
  have s: "(\<Sum>k\<leftarrow>Object_keys roomMapping. count_of [(''Kitchen'', 1), (''Attic'', 5), (''Bedroom'', 2)] k) = 3"
    by (simp add: Object_keys_def roomMapping_def count_of_def)
  note t1 = mapRoomsToBackend_sum[of "[(''Kitchen'', 1), (''Attic'', 5), (''Bedroom'', 2)]" "''Attic''" 5
      "[(''Bedroom'', 2), (''Kitchen'', 1), (''Attic'', 5)]"]
  note t2 = mapRoomsToBackend_sum[of "[(''Kitchen'', 1), (''Bedroom'', 2)]" "''Attic''" 5 "[]"]
  show ?thesis using a d1 d2 e s t1 t2 by simp
qed

section \<open>The price\<close>

lemmas double_eval =
  round_half_even_numeral_div round_half_even_numeral power_int_minus to_double_def Let_def

lemma floor_rat_numeral_div: "\<lfloor>(numeral a / numeral b :: rat)\<rfloor> = numeral a div numeral b"
  using floor_divide_of_int_eq[of "numeral a" "numeral b", where ?'a = rat] by simp

lemma literal_int: "numeral n < (2 ^ 53 :: int) \<Longrightarrow> literal (numeral n) = Fin (numeral n)"
  by (simp add: literal_def to_double_numeral)

lemma literal_1: "literal 1 = Fin 1"
  by (simp add: literal_def to_double_1)

lemma literal_0: "literal 0 = Fin 0"
  by (simp add: literal_def to_double_0)

lemma literal_1_4: "literal (7 / 5) = Fin (3152519739159347 / 2251799813685248)"
  by (simp add: literal_def round_binary64_binade[of 0] double_eval)

lemma literal_1_5: "literal (3 / 2) = Fin (3 / 2)"
  by (simp add: literal_def round_binary64_binade[of 0] double_eval)

lemma literal_0_15: "literal (3 / 20) = Fin (5404319552844595 / 36028797018963968)"
  by (simp add: literal_def round_binary64_binade[of "- 3"] double_eval)

lemma literal_0_7: "literal (7 / 10) = Fin (3152519739159347 / 4503599627370496)"
  by (simp add: literal_def round_binary64_binade[of "- 1"] double_eval)

lemma literal_0_05: "literal (1 / 20) = Fin (3602879701896397 / 72057594037927936)"
  by (simp add: literal_def round_binary64_binade[of "- 5"] double_eval)

lemma mapRoomsToBackend_Kitchen_Bathroom:
  "mapRoomsToBackend [(''Kitchen'', 1), (''Bathroom'', 1)] =
     [(''Living Room'', 0), (''Bedrooms'', 0), (''Bathrooms'', 1), (''Kitchen'', 1),
      (''Dining Room'', 0), (''Terrace/Balcony'', 0), (''Garage'', 0), (''Study/Office'', 0)]"
  by (simp add: mapRoomsToBackend_def forEach_body_def prop_get_def roomMapping_def
      backendItems_init_def Object_keys_def hasOwnProperty_def)

lemma totalItems_Kitchen_Bathroom: "reduce_totalItems (mapRoomsToBackend [(''Kitchen'', 1), (''Bathroom'', 1)]) = Fin 2"
  unfolding mapRoomsToBackend_Kitchen_Bathroom
  by (simp add: reduce_totalItems_exact Object_values_def)

lemma deep_rooms: "fadd (Fin 15000) (fmul (Fin 2) (Fin 2000)) = Fin 19000"
  by (simp add: to_double_numeral)

lemma deep_premium: "fmul (Fin 19000) (Fin (3152519739159347 / 2251799813685248)) = Fin 26600"
  by (simp add: round_binary64_binade[of 14] double_eval)

lemma deep_premium_medium: "fmul (Fin 26600) (Fin (3 / 2)) = Fin 39900"
  by (simp add: to_double_numeral)

lemma weekly_factor: "fsub (Fin 1) (Fin (5404319552844595 / 36028797018963968)) = Fin (7656119366529843 / 9007199254740992)"
  by (simp add: fsub_def round_binary64_binade[of "- 1"] double_eval)

lemma weekly_discounted: "fmul (Fin 39900) (Fin (7656119366529843 / 9007199254740992)) = Fin 33915"
  by (simp add: round_binary64_binade[of 15] double_eval)

lemma weekly_rounded: "Math_round (Fin 33915) = Fin 33915"
  by (simp add: floor_rat_numeral_div)

lemma weekly_discount: "fsub (Fin 39900) (Fin 33915) = Fin 5985"
  by (simp add: fsub_def to_double_numeral)

lemma mapRoomsToBackend_Bedroom_2:
  "mapRoomsToBackend [(''Bedroom'', 2)] =
     [(''Living Room'', 0), (''Bedrooms'', 2), (''Bathrooms'', 0), (''Kitchen'', 0),
      (''Dining Room'', 0), (''Terrace/Balcony'', 0), (''Garage'', 0), (''Study/Office'', 0)]"
  by (simp add: mapRoomsToBackend_def forEach_body_def prop_get_def roomMapping_def
      backendItems_init_def Object_keys_def hasOwnProperty_def)

lemma mapRoomsToBackend_Bedroom_1:
  "mapRoomsToBackend [(''Bedroom'', 1)] =
     [(''Living Room'', 0), (''Bedrooms'', 1), (''Bathrooms'', 0), (''Kitchen'', 0),
      (''Dining Room'', 0), (''Terrace/Balcony'', 0), (''Garage'', 0), (''Study/Office'', 0)]"
  by (simp add: mapRoomsToBackend_def forEach_body_def prop_get_def roomMapping_def
      backendItems_init_def Object_keys_def hasOwnProperty_def)

lemma mapRoomsToBackend_Attic:
  "mapRoomsToBackend [(''Bedroom'', 0), (''Attic'', 3)] = backendItems_init"
  by (simp add: mapRoomsToBackend_def forEach_body_def prop_get_def roomMapping_def
      backendItems_init_def Object_keys_def hasOwnProperty_def Object_prototype_keys_def)

lemmas integer_eval =
  to_double_numeral to_double_0 to_double_1 floor_rat_numeral_div fsub_def literal_int
  literal_0 literal_1

lemmas tables =
  CLEANING_CATEGORIES_def CLEANING_PACKAGES_def HOME_SIZES_def FREQUENCIES_def default_def

text \<open>
  With recognized options and a positive backend sum the guards of \<open>calculateCleaningPrice\<close>
  pass, and the result is built from the numbers looked up by the operations of the source, in
  their order. \<open>totalItems\<close> is the \<^verbatim>\<open>reduce\<close> over the backend counts, the exact sum while that
  is below \<open>2 ^ 53\<close>.
\<close>

lemma calculateCleaningPrice_operations:
  assumes "map_of CLEANING_CATEGORIES (default ''Standard Cleaning'' (category options)) = Some cd"
    and "map_of CLEANING_PACKAGES (default ''Standard Package'' (package options)) = Some pd"
    and "map_of HOME_SIZES (default ''small'' (homeSize options)) = Some sd"
    and "map_of FREQUENCIES (default ''one-time'' (frequency options)) = Some fd"
    and "0 < sum_list (Object_values (mapRoomsToBackend selection))"
  shows "calculateCleaningPrice selection options =
     (let totalRooms = reduce_totalItems (mapRoomsToBackend selection);
          sub = fmul (fmul (fadd (cat_basePrice cd) (fmul totalRooms (cat_pricePerRoom cd)))
                           (multiplier pd)) (multiplier sd);
          discountedPrice = fmul sub (fsub (Fin 1) (freq_discount fd));
          final = Math_round discountedPrice
      in \<lparr>finalPrice = final,
          breakdown = Some
            \<lparr>basePrice = Some (cat_basePrice cd),
             roomCount = totalRooms,
             pricePerRoom = Some (cat_pricePerRoom cd),
             packageMultiplier = Some (multiplier pd),
             sizeMultiplier = Some (multiplier sd),
             frequencyDiscount = Some (freq_discount fd),
             subtotal = sub,
             discount = fsub sub discountedPrice,
             total' = final\<rparr>\<rparr>)
   \<and> (sum_list (Object_values (mapRoomsToBackend selection)) < 2 ^ 53 \<longrightarrow>
        reduce_totalItems (mapRoomsToBackend selection) =
          Fin (of_nat (sum_list (Object_values (mapRoomsToBackend selection)))))"
proof -
  have nz: "reduce_totalItems (mapRoomsToBackend selection) \<noteq> Fin 0"
    using assms(5) by (rule reduce_totalItems_nonzero)
  show ?thesis
    using nz
    by (simp add: calculateCleaningPrice_def Let_def prop_get_Own[OF assms(1)]
        prop_get_Own[OF assms(2)] prop_get_Own[OF assms(3)] prop_get_Own[OF assms(4)]
        truthy_def field_def ToNumber_def reduce_totalItems_exact)
qed


text \<open>
  The coefficients of the four tables are finite binary64 numbers: a base price is at most
  \<open>2 ^ 15\<close>, a price per room at most \<open>2 ^ 12\<close>, a multiplier at most 4 and a discount at most 1.
\<close>

lemma literal_range:
  assumes "0 \<le> c" and "c \<le> 2 ^ n" and "n \<le> 971"
  shows "\<exists>v. literal c = Fin v \<and> 0 \<le> v \<and> v \<le> 2 ^ n \<and> is_binary64 v"
  using to_double_range[OF assms] by (auto simp add: literal_def binary64_of_def)

lemma categories_range:
  assumes "map_of CLEANING_CATEGORIES key = Some cd"
  shows "\<exists>b p. cat_basePrice cd = Fin b \<and> cat_pricePerRoom cd = Fin p \<and> 0 \<le> b \<and> b \<le> 2 ^ 15
     \<and> 0 \<le> p \<and> p \<le> 2 ^ 12 \<and> is_binary64 b \<and> is_binary64 p"
  using assms
  by (auto simp add: CLEANING_CATEGORIES_def literal_int is_binary64_numeral split: if_splits)

lemma packages_range:
  assumes "map_of CLEANING_PACKAGES key = Some pd"
  shows "\<exists>m. multiplier pd = Fin m \<and> 0 \<le> m \<and> m \<le> 2 ^ 2 \<and> is_binary64 m"
  using assms literal_range[of "4 / 5" 2] literal_range[of 1 2] literal_range[of "7 / 5" 2]
    literal_range[of "9 / 5" 2]
  by (auto simp add: CLEANING_PACKAGES_def split: if_splits)

lemma sizes_range:
  assumes "map_of HOME_SIZES key = Some sd"
  shows "\<exists>m. multiplier sd = Fin m \<and> 0 \<le> m \<and> m \<le> 2 ^ 2 \<and> is_binary64 m"
  using assms literal_range[of "7 / 10" 2] literal_range[of 1 2] literal_range[of "3 / 2" 2]
    literal_range[of "11 / 5" 2]
  by (auto simp add: HOME_SIZES_def split: if_splits)

lemma frequencies_range:
  assumes "map_of FREQUENCIES key = Some fd"
  shows "\<exists>d. freq_discount fd = Fin d \<and> 0 \<le> d \<and> d \<le> 2 ^ 0 \<and> is_binary64 d"
  using assms literal_range[of 0 0] literal_range[of "1 / 20" 0] literal_range[of "1 / 10" 0]
    literal_range[of "3 / 20" 0]
  by (auto simp add: FREQUENCIES_def split: if_splits)

text \<open>
  \<^bold>\<open>C1.\<close> For every selection whose translated backend counts sum to \<open>n\<close> with
  \<open>0 < n < 2 ^ 53\<close> and every recognized category, package, home size and frequency (an absent
  option standing for its default), \<open>calculateCleaningPrice\<close> returns
  \<open>finalPrice = \<lfloor>discountedPrice + 1 / 2\<rfloor>\<close>, the integer nearest to \<open>discountedPrice\<close> with a tie
  going up, where \<open>discountedPrice\<close> is
  \<open>(basePrice + n * pricePerRoom) * packageMultiplier * sizeMultiplier * (1 - frequencyDiscount)\<close>
  computed in binary64 arithmetic: the product \<open>n * pricePerRoom\<close>, the sum, the two products
  by the multipliers (the subtotal), the factor \<open>1 - frequencyDiscount\<close> and the last product are
  each replaced, before the next operation uses them, by the binary64 number nearest to the
  exact value, a tie going to the even significand. The coefficients are finite binary64
  numbers; the breakdown holds them, the room count \<open>n\<close>, the subtotal, the discount (the
  binary64 number nearest to \<open>subtotal - discountedPrice\<close>) and \<open>total = finalPrice\<close>.
\<close>

theorem calculateCleaningPrice_binary64:
  assumes "map_of CLEANING_CATEGORIES (default ''Standard Cleaning'' (category options)) = Some cd"
    and "map_of CLEANING_PACKAGES (default ''Standard Package'' (package options)) = Some pd"
    and "map_of HOME_SIZES (default ''small'' (homeSize options)) = Some sd"
    and "map_of FREQUENCIES (default ''one-time'' (frequency options)) = Some fd"
    and "n = sum_list (Object_values (mapRoomsToBackend selection))"
    and "0 < n" and "n < 2 ^ 53"
  shows
    "(let b = finite_value (cat_basePrice cd);
          p = finite_value (cat_pricePerRoom cd);
          m1 = finite_value (multiplier pd);
          m2 = finite_value (multiplier sd);
          d = finite_value (freq_discount fd);
          rooms = round_binary64 (of_nat n * p);
          base = round_binary64 (b + rooms);
          packaged = round_binary64 (base * m1);
          sub = round_binary64 (packaged * m2);
          factor = round_binary64 (1 - d);
          discountedPrice = round_binary64 (sub * factor);
          off = round_binary64 (sub - discountedPrice);
          final = of_int \<lfloor>discountedPrice + 1 / 2\<rfloor>
      in calculateCleaningPrice selection options =
           \<lparr>finalPrice = Fin final,
            breakdown = Some
              \<lparr>basePrice = Some (Fin b),
               roomCount = Fin (of_nat n),
               pricePerRoom = Some (Fin p),
               packageMultiplier = Some (Fin m1),
               sizeMultiplier = Some (Fin m2),
               frequencyDiscount = Some (Fin d),
               subtotal = Fin sub,
               discount = Fin off,
               total' = Fin final\<rparr>\<rparr>
         \<and> cat_basePrice cd = Fin b \<and> cat_pricePerRoom cd = Fin p \<and> multiplier pd = Fin m1
         \<and> multiplier sd = Fin m2 \<and> freq_discount fd = Fin d
         \<and> is_binary64 b \<and> is_binary64 p \<and> is_binary64 m1 \<and> is_binary64 m2 \<and> is_binary64 d
         \<and> binary64_of (of_nat n * p) rooms
         \<and> binary64_of (b + rooms) base
         \<and> binary64_of (base * m1) packaged
         \<and> binary64_of (packaged * m2) sub
         \<and> binary64_of (1 - d) factor
         \<and> binary64_of (sub * factor) discountedPrice
         \<and> binary64_of (sub - discountedPrice) off)"
proof -
  obtain b p where c: "cat_basePrice cd = Fin b" "cat_pricePerRoom cd = Fin p" "0 \<le> b" "b \<le> 2 ^ 15"
      "0 \<le> p" "p \<le> 2 ^ 12" "is_binary64 b" "is_binary64 p"
    using categories_range[OF assms(1)] by auto
  obtain m1 where m1: "multiplier pd = Fin m1" "0 \<le> m1" "m1 \<le> 2 ^ 2" "is_binary64 m1"
    using packages_range[OF assms(2)] by auto
  obtain m2 where m2: "multiplier sd = Fin m2" "0 \<le> m2" "m2 \<le> 2 ^ 2" "is_binary64 m2"
    using sizes_range[OF assms(3)] by auto
  obtain d where d: "freq_discount fd = Fin d" "0 \<le> d" "d \<le> 2 ^ 0" "is_binary64 d"
    using frequencies_range[OF assms(4)] by auto
  define rooms where "rooms = round_binary64 (of_nat n * p)"
  define base where "base = round_binary64 (b + rooms)"
  define packaged where "packaged = round_binary64 (base * m1)"
  define sub where "sub = round_binary64 (packaged * m2)"
  define factor where "factor = round_binary64 (1 - d)"
  define discountedPrice where "discountedPrice = round_binary64 (sub * factor)"
  define off where "off = round_binary64 (sub - discountedPrice)"
  have n: "(0::rat) \<le> of_nat n" "(of_nat n :: rat) \<le> 2 ^ 53"
    using assms(7) by (simp_all add: order.strict_implies_order)
  have "of_nat n * p \<le> 2 ^ 53 * 2 ^ 12" using n c(5,6) by (intro mult_mono) simp_all
  then have "of_nat n * p \<le> 2 ^ 65" by simp
  moreover have "0 \<le> of_nat n * p" using c(5) by simp
  ultimately have rooms: "to_double (of_nat n * p) = Fin rooms" "0 \<le> rooms" "rooms \<le> 2 ^ 65"
      "binary64_of (of_nat n * p) rooms"
    unfolding rooms_def using to_double_range[of "of_nat n * p" 65] by simp_all
  have "b + rooms \<le> 2 ^ 66" using c(4) rooms(3) by simp
  moreover have "0 \<le> b + rooms" using c(3) rooms(2) by simp
  ultimately have base: "to_double (b + rooms) = Fin base" "0 \<le> base" "base \<le> 2 ^ 66"
      "binary64_of (b + rooms) base"
    unfolding base_def using to_double_range[of "b + rooms" 66] by simp_all
  have "base * m1 \<le> 2 ^ 66 * 2 ^ 2" using base(2,3) m1(2,3) by (intro mult_mono) simp_all
  then have "base * m1 \<le> 2 ^ 68" by simp
  moreover have "0 \<le> base * m1" using base(2) m1(2) by simp
  ultimately have packaged: "to_double (base * m1) = Fin packaged" "0 \<le> packaged"
      "packaged \<le> 2 ^ 68" "binary64_of (base * m1) packaged"
    unfolding packaged_def using to_double_range[of "base * m1" 68] by simp_all
  have "packaged * m2 \<le> 2 ^ 68 * 2 ^ 2" using packaged(2,3) m2(2,3) by (intro mult_mono) simp_all
  then have "packaged * m2 \<le> 2 ^ 70" by simp
  moreover have "0 \<le> packaged * m2" using packaged(2) m2(2) by simp
  ultimately have sub: "to_double (packaged * m2) = Fin sub" "0 \<le> sub" "sub \<le> 2 ^ 70"
      "binary64_of (packaged * m2) sub"
    unfolding sub_def using to_double_range[of "packaged * m2" 70] by simp_all
  have "0 \<le> 1 - d" "1 - d \<le> 2 ^ 0" using d(2,3) by simp_all
  then have factor: "to_double (1 - d) = Fin factor" "0 \<le> factor" "factor \<le> 1"
      "binary64_of (1 - d) factor"
    unfolding factor_def using to_double_range[of "1 - d" 0] by simp_all
  have sf: "sub * factor \<le> sub" using sub(2) factor(2,3) by (simp add: mult_left_le)
  then have "sub * factor \<le> 2 ^ 70" using sub(3) by linarith
  moreover have sf0: "0 \<le> sub * factor" using sub(2) factor(2) by simp
  ultimately have discounted: "to_double (sub * factor) = Fin discountedPrice"
      "0 \<le> discountedPrice" "binary64_of (sub * factor) discountedPrice"
    unfolding discountedPrice_def using to_double_range[of "sub * factor" 70] by simp_all
  have "is_binary64 sub" using sub(4) by (simp add: binary64_of_def)
  moreover have "\<bar>sub * factor\<bar> < 2 powi 1023"
  proof -
    have "sub * factor < 2 ^ 1023" using sf sub(3) by (simp add: order.strict_trans1)
    then show ?thesis using sf0 by (simp add: powi_nat)
  qed
  ultimately have "discountedPrice \<le> sub"
    unfolding discountedPrice_def using sf by (intro round_binary64_le)
  then have "0 \<le> sub - discountedPrice" "sub - discountedPrice \<le> 2 ^ 70"
    using discounted(2) sub(3) by simp_all
  then have off: "to_double (sub - discountedPrice) = Fin off"
      "binary64_of (sub - discountedPrice) off"
    unfolding off_def using to_double_range[of "sub - discountedPrice" 70] by simp_all
  have t: "reduce_totalItems (mapRoomsToBackend selection) = Fin (of_nat n)"
    using reduce_totalItems_exact[of "mapRoomsToBackend selection"] assms(5,7) by simp
  have pos: "0 < sum_list (Object_values (mapRoomsToBackend selection))"
    using assms(5,6) by simp
  have "calculateCleaningPrice selection options =
      \<lparr>finalPrice = Fin (of_int \<lfloor>discountedPrice + 1 / 2\<rfloor>),
       breakdown = Some
         \<lparr>basePrice = Some (Fin b), roomCount = Fin (of_nat n), pricePerRoom = Some (Fin p),
          packageMultiplier = Some (Fin m1), sizeMultiplier = Some (Fin m2),
          frequencyDiscount = Some (Fin d), subtotal = Fin sub, discount = Fin off,
          total' = Fin (of_int \<lfloor>discountedPrice + 1 / 2\<rfloor>)\<rparr>\<rparr>"
    using calculateCleaningPrice_operations[OF assms(1-4) pos]
    by (simp add: Let_def t c(1,2) m1(1) m2(1) d(1) fsub_def rooms(1) base(1) packaged(1) sub(1)
        factor(1) discounted(1) off(1))
  then show ?thesis
    using c m1 m2 d rooms(4) base(4) packaged(4) sub(4) factor(4) discounted(3) off(2)
    unfolding Let_def
    by (simp add: finite_value_def rooms_def[symmetric] base_def[symmetric]
        packaged_def[symmetric] sub_def[symmetric] factor_def[symmetric]
        discountedPrice_def[symmetric] off_def[symmetric])
qed

theorem calculateCleaningPrice_binary64_witness:
  "map_of CLEANING_CATEGORIES (default ''Standard Cleaning'' (Some ''Move-in Cleaning'')) =
     Some \<lparr>cat_basePrice = Fin 20000, cat_pricePerRoom = Fin 2500\<rparr>
   \<and> map_of CLEANING_PACKAGES (default ''Standard Package'' (Some ''Standard Package'')) =
     Some \<lparr>multiplier = Fin 1\<rparr>
   \<and> map_of HOME_SIZES (default ''small'' (Some ''studio'')) =
     Some \<lparr>multiplier = Fin (3152519739159347 / 4503599627370496)\<rparr>
   \<and> map_of FREQUENCIES (default ''one-time'' (Some ''monthly'')) =
     Some \<lparr>freq_discount = Fin (3602879701896397 / 72057594037927936)\<rparr>
   \<and> 1 = sum_list (Object_values (mapRoomsToBackend [(''Bedroom'', 1)]))
   \<and> (0::nat) < 1 \<and> (1::nat) < 2 ^ 53
   \<and> calculateCleaningPrice [(''Bedroom'', 1)]
        \<lparr>category = Some ''Move-in Cleaning'', package = Some ''Standard Package'',
         homeSize = Some ''studio'', frequency = Some ''monthly''\<rparr> =
      \<lparr>finalPrice = Fin 14962,
       breakdown = Some
         \<lparr>basePrice = Some (Fin 20000),
          roomCount = Fin 1,
          pricePerRoom = Some (Fin 2500),
          packageMultiplier = Some (Fin 1),
          sizeMultiplier = Some (Fin (3152519739159347 / 4503599627370496)),
          frequencyDiscount = Some (Fin (3602879701896397 / 72057594037927936)),
          subtotal = Fin (8658654068735999 / 549755813888),
          discount = Fin (1575 / 2),
          total' = Fin 14962\<rparr>\<rparr>
   \<and> binary64_of (22500 * (3152519739159347 / 4503599627370496))
        (8658654068735999 / 549755813888)
   \<and> binary64_of (1 - 3602879701896397 / 72057594037927936)
        (4278419646001971 / 4503599627370496)
   \<and> binary64_of (8658654068735999 / 549755813888 * (4278419646001971 / 4503599627370496))
        (8225721365299199 / 549755813888)
   \<and> binary64_of (8658654068735999 / 549755813888 - 8225721365299199 / 549755813888) (1575 / 2)
   \<and> \<lfloor>8225721365299199 / 549755813888 + 1 / 2 :: rat\<rfloor> = 14962"
proof -
  let ?options = "\<lparr>category = Some ''Move-in Cleaning'', package = Some ''Standard Package'',
    homeSize = Some ''studio'', frequency = Some ''monthly''\<rparr>"
  have h1: "map_of CLEANING_CATEGORIES (default ''Standard Cleaning'' (category ?options)) =
      Some \<lparr>cat_basePrice = Fin 20000, cat_pricePerRoom = Fin 2500\<rparr>"
    by (simp add: tables integer_eval)
  have h2: "map_of CLEANING_PACKAGES (default ''Standard Package'' (package ?options)) =
      Some \<lparr>multiplier = Fin 1\<rparr>"
    by (simp add: tables integer_eval)
  have h3: "map_of HOME_SIZES (default ''small'' (homeSize ?options)) =
      Some \<lparr>multiplier = Fin (3152519739159347 / 4503599627370496)\<rparr>"
    by (simp add: tables literal_0_7)
  have h4: "map_of FREQUENCIES (default ''one-time'' (frequency ?options)) =
      Some \<lparr>freq_discount = Fin (3602879701896397 / 72057594037927936)\<rparr>"
    by (simp add: tables literal_0_05)
  have h5: "1 = sum_list (Object_values (mapRoomsToBackend [(''Bedroom'', 1)]))"
    by (simp add: mapRoomsToBackend_Bedroom_1[unfolded One_nat_def] Object_values_def)
  have h6: "(0::nat) < 1" by simp
  have h7: "(1::nat) < 2 ^ 53" by simp
  have r1: "round_binary64 2500 = 2500" "round_binary64 22500 = 22500"
    by (simp_all add: round_binary64_numeral)
  have r2: "round_binary64 (17732923532771326875 / 1125899906842624) =
      8658654068735999 / 549755813888"
    by (simp add: round_binary64_binade[of 13] double_eval)
  have r3: "round_binary64 (68454714336031539 / 72057594037927936) =
      4278419646001971 / 4503599627370496"
    by (simp add: round_binary64_binade[of "- 1"] double_eval)
  have r4: "round_binary64 (37045355675614998716205832654029 / 2475880078570760549798248448) =
      8225721365299199 / 549755813888"
    by (simp add: round_binary64_binade[of 13] double_eval)
  have r5: "round_binary64 (1575 / 2) = 1575 / 2"
    by (simp add: round_binary64_binade[of 9] double_eval)
  show ?thesis
    using h1 h2 h3 h4 h5 calculateCleaningPrice_binary64[OF h1 h2 h3 h4 h5 h6 h7]
    by (simp add: Let_def finite_value_def r1 r2 r3 r4 r5 floor_rat_numeral_div)
qed

text \<open>
  In this arithmetic every product is rounded to a binary64 value, so a price is not always the
  one that exact decimal arithmetic gives: for one room, Move-in Cleaning, Standard Package,
  studio and monthly, the exact product \<open>22500 * 0.7 * 0.95\<close> is \<open>14962.5\<close>, while the numbers
  computed are \<open>15749.999999999998\<close> and \<open>14962.499999999998\<close>, and the price is \<open>14962\<close>.
\<close>

lemma calculateCleaningPrice_rounded_products:
  "finalPrice (calculateCleaningPrice [(''Bedroom'', 1)]
     \<lparr>category = Some ''Move-in Cleaning'', package = Some ''Standard Package'',
      homeSize = Some ''studio'', frequency = Some ''monthly''\<rparr>) = Fin 14962"
proof -
  have t: "reduce_totalItems (mapRoomsToBackend [(''Bedroom'', Suc 0)]) = Fin 1"
    using mapRoomsToBackend_Bedroom_1
    by (simp add: reduce_totalItems_exact Object_values_def)
  have a: "fmul (fadd (Fin 20000) (fmul (Fin 1) (Fin 2500))) (Fin 1) = Fin 22500"
    by (simp add: integer_eval)
  have b: "fmul (Fin 22500) (Fin (3152519739159347 / 4503599627370496)) =
      Fin (8658654068735999 / 549755813888)"
    by (simp add: round_binary64_binade[of 13] double_eval)
  have c: "fsub (Fin 1) (Fin (3602879701896397 / 72057594037927936)) =
      Fin (4278419646001971 / 4503599627370496)"
    by (simp add: fsub_def round_binary64_binade[of "- 1"] double_eval)
  have d: "fmul (Fin (8658654068735999 / 549755813888)) (Fin (4278419646001971 / 4503599627370496)) =
      Fin (8225721365299199 / 549755813888)"
    by (simp add: round_binary64_binade[of 13] double_eval)
  have e: "Math_round (Fin (8225721365299199 / 549755813888)) = Fin 14962"
    by (simp add: floor_rat_numeral_div)
  show ?thesis
    by (simp add: calculateCleaningPrice_def Let_def tables prop_get_def truthy_def field_def
        ToNumber_def t literal_int literal_1 literal_0_7 literal_0_05 a b c d e
        del: fadd.simps fmul.simps Math_round.simps)
qed

text \<open>
  For three rooms with the same options the two products are rounded to \<open>19250\<close> and to
  \<open>18287.5\<close>, and the tie goes up to \<open>18288\<close>; multiplied out exactly, the coefficients looked up
  (the binary64 numbers nearest to \<open>0.7\<close> and \<open>0.05\<close>) give a value below \<open>18287.5\<close>.
\<close>

lemma mapRoomsToBackend_Bedroom_3:
  "mapRoomsToBackend [(''Bedroom'', 3)] =
     [(''Living Room'', 0), (''Bedrooms'', 3), (''Bathrooms'', 0), (''Kitchen'', 0),
      (''Dining Room'', 0), (''Terrace/Balcony'', 0), (''Garage'', 0), (''Study/Office'', 0)]"
  by (simp add: mapRoomsToBackend_def forEach_body_def prop_get_def roomMapping_def
      backendItems_init_def Object_keys_def hasOwnProperty_def)

lemma calculateCleaningPrice_tie_up:
  "finalPrice (calculateCleaningPrice [(''Bedroom'', 3)]
     \<lparr>category = Some ''Move-in Cleaning'', package = Some ''Standard Package'',
      homeSize = Some ''studio'', frequency = Some ''monthly''\<rparr>) = Fin 18288"
proof -
  have t: "reduce_totalItems (mapRoomsToBackend [(''Bedroom'', 3)]) = Fin 3"
    using mapRoomsToBackend_Bedroom_3
    by (simp add: reduce_totalItems_exact Object_values_def)
  have a: "fmul (fadd (Fin 20000) (fmul (Fin 3) (Fin 2500))) (Fin 1) = Fin 27500"
    by (simp add: integer_eval)
  have b: "fmul (Fin 27500) (Fin (3152519739159347 / 4503599627370496)) = Fin 19250"
    by (simp add: round_binary64_binade[of 14] double_eval)
  have c: "fsub (Fin 1) (Fin (3602879701896397 / 72057594037927936)) =
      Fin (4278419646001971 / 4503599627370496)"
    by (simp add: fsub_def round_binary64_binade[of "- 1"] double_eval)
  have d: "fmul (Fin 19250) (Fin (4278419646001971 / 4503599627370496)) = Fin (36575 / 2)"
    by (simp add: round_binary64_binade[of 14] double_eval)
  have e: "Math_round (Fin (36575 / 2)) = Fin 18288"
    by (simp add: floor_rat_numeral_div)
  show ?thesis
    by (simp add: calculateCleaningPrice_def Let_def tables prop_get_def truthy_def field_def
        ToNumber_def t literal_int literal_1 literal_0_7 literal_0_05 a b c d e
        del: fadd.simps fmul.simps Math_round.simps)
qed

text \<open>
  \<^bold>\<open>C1, as it is stated,\<close> fails when its formula is read in exact arithmetic. With the
  decimal coefficients of the tables, one room, Move-in Cleaning, Standard Package, studio and
  monthly give \<open>22500 * 0.7 * 0.95 = 14962.5\<close>, which rounds to \<open>14963\<close>, and the price returned
  is \<open>14962\<close>. With the coefficients looked up, three rooms give a value that rounds to \<open>18287\<close>,
  and the price returned is \<open>18288\<close>.
\<close>

theorem calculateCleaningPrice_not_exact:
  "finalPrice (calculateCleaningPrice [(''Bedroom'', 1)]
     \<lparr>category = Some ''Move-in Cleaning'', package = Some ''Standard Package'',
      homeSize = Some ''studio'', frequency = Some ''monthly''\<rparr>) = Fin 14962
   \<and> \<lfloor>(20000 + 1 * 2500) * 1 * (7 / 10) * (1 - 5 / 100) + 1 / 2 :: rat\<rfloor> = 14963
   \<and> finalPrice (calculateCleaningPrice [(''Bedroom'', 3)]
     \<lparr>category = Some ''Move-in Cleaning'', package = Some ''Standard Package'',
      homeSize = Some ''studio'', frequency = Some ''monthly''\<rparr>) = Fin 18288
   \<and> \<lfloor>(20000 + 3 * 2500) * 1 * finite_value (literal (7 / 10))
        * (1 - finite_value (literal (5 / 100))) + 1 / 2\<rfloor> = 18287"
  using calculateCleaningPrice_rounded_products calculateCleaningPrice_tie_up
  by (simp add: finite_value_def literal_0_7 literal_0_05 floor_rat_numeral_div)

text \<open>
  The bound \<open>2 ^ 53\<close> on the sum is where the \<^verbatim>\<open>reduce\<close> stops being exact: the counts
  \<open>2 ^ 53\<close> and \<open>1\<close> sum to \<open>2 ^ 53 + 1\<close>, and \<open>totalItems\<close> is \<open>2 ^ 53\<close>.
\<close>

lemma to_double_2_53_1: "to_double 9007199254740993 = Fin 9007199254740992"
  by (simp add: round_binary64_binade[of 53] double_eval)

lemma to_double_2_53: "to_double 9007199254740992 = Fin 9007199254740992"
  by (simp add: round_binary64_binade[of 53] double_eval)

lemma reduce_totalItems_rounded:
  "sum_list (Object_values (mapRoomsToBackend [(''Bedroom'', 9007199254740992), (''Bathroom'', 1)])) =
     9007199254740993
   \<and> reduce_totalItems (mapRoomsToBackend [(''Bedroom'', 9007199254740992), (''Bathroom'', 1)]) =
     Fin 9007199254740992"
proof -
  have m: "mapRoomsToBackend [(''Bedroom'', 9007199254740992), (''Bathroom'', 1)] =
     [(''Living Room'', 0), (''Bedrooms'', 9007199254740992), (''Bathrooms'', 1), (''Kitchen'', 0),
      (''Dining Room'', 0), (''Terrace/Balcony'', 0), (''Garage'', 0), (''Study/Office'', 0)]"
    by (simp add: mapRoomsToBackend_def forEach_body_def prop_get_def roomMapping_def
        backendItems_init_def Object_keys_def hasOwnProperty_def)
  show ?thesis
    unfolding m
    by (simp add: reduce_totalItems_def Object_values_def Number_def to_double_0 to_double_1
        to_double_2_53 to_double_2_53_1)
qed

lemma to_double_of_nat: "k < 2 ^ 53 \<Longrightarrow> to_double (of_nat k) = Fin (of_nat k)"
  using to_double_of_int[of "int k"] by simp

lemma Math_round_of_nat: "Math_round (Fin (of_nat k)) = Fin (of_nat k)"
proof -
  have "\<lfloor>(of_nat k :: rat) + 1 / 2\<rfloor> = int k"
    by (simp add: floor_unique)
  then show ?thesis by simp
qed

text \<open>
  With the Standard Package, a small home and a one-time booking no fraction enters the
  product: the price is exactly \<open>basePrice + totalRooms * pricePerRoom\<close>, and the discount is 0
  (shown for the default category and fewer than \<open>2 ^ 32\<close> rooms).
\<close>

lemma calculateCleaningPrice_default_options:
  assumes "0 < n" and "n < 2 ^ 32"
    and "n = sum_list (Object_values (mapRoomsToBackend selection))"
  shows "calculateCleaningPrice selection
      \<lparr>category = None, package = None, homeSize = None, frequency = None\<rparr> =
    \<lparr>finalPrice = Fin (of_nat (8000 + n * 1200)),
     breakdown = Some
       \<lparr>basePrice = Some (Fin 8000),
        roomCount = Fin (of_nat n),
        pricePerRoom = Some (Fin 1200),
        packageMultiplier = Some (Fin 1),
        sizeMultiplier = Some (Fin 1),
        frequencyDiscount = Some (Fin 0),
        subtotal = Fin (of_nat (8000 + n * 1200)),
        discount = Fin 0,
        total' = Fin (of_nat (8000 + n * 1200))\<rparr>\<rparr>"
proof -
  have n53: "n < 2 ^ 53" using assms(2) by (rule less_trans) simp
  have t: "reduce_totalItems (mapRoomsToBackend selection) = Fin (of_nat n)"
    using reduce_totalItems_exact[of "mapRoomsToBackend selection"] n53 assms(3) by simp
  have n32: "n < 4294967296" using assms(2) by simp
  then have "n * 1200 < 9007199254740992" by linarith
  then have m: "n * 1200 < 2 ^ 53" by simp
  have "8000 + n * 1200 < 9007199254740992" using n32 by linarith
  then have s: "8000 + n * 1200 < 2 ^ 53" by simp
  have a: "fmul (Fin (of_nat n)) (Fin 1200) = Fin (of_nat (n * 1200))"
    using to_double_of_nat[OF m] by simp
  have b: "fadd (Fin 8000) (Fin (of_nat (n * 1200))) = Fin (of_nat (8000 + n * 1200))"
    using to_double_of_nat[OF s] by simp
  have c: "fmul (Fin (of_nat (8000 + n * 1200))) (Fin 1) = Fin (of_nat (8000 + n * 1200))"
    using to_double_of_nat[OF s] by simp
  have d: "fsub (Fin 1) (Fin 0) = Fin 1" by (simp add: fsub_def to_double_1)
  have e: "fsub (Fin (of_nat (8000 + n * 1200))) (Fin (of_nat (8000 + n * 1200))) = Fin 0"
    by (simp add: fsub_def to_double_0)
  have nz: "Fin (of_nat n) \<noteq> Fin 0" using assms(1) by simp
  show ?thesis
    using nz
    by (simp add: calculateCleaningPrice_def Let_def tables prop_get_def truthy_def field_def
        ToNumber_def t literal_int literal_0 literal_1 a b c d e Math_round_of_nat
        del: fadd.simps fmul.simps Math_round.simps of_nat_add of_nat_mult)
qed

text \<open>
  \<^bold>\<open>C2.\<close> For every selection whose translated backend counts sum to 0 and every recognized
  category, package, home size and frequency, \<open>calculateCleaningPrice\<close> returns the price 0 with the
  empty breakdown.
\<close>

theorem calculateCleaningPrice_no_rooms:
  assumes "map_of CLEANING_CATEGORIES (default ''Standard Cleaning'' (category options)) = Some cd"
    and "map_of CLEANING_PACKAGES (default ''Standard Package'' (package options)) = Some pd"
    and "map_of HOME_SIZES (default ''small'' (homeSize options)) = Some sd"
    and "map_of FREQUENCIES (default ''one-time'' (frequency options)) = Some fd"
    and "sum_list (Object_values (mapRoomsToBackend selection)) = 0"
  shows "calculateCleaningPrice selection options = \<lparr>finalPrice = Fin 0, breakdown = None\<rparr>"
  using reduce_totalItems_zero[OF assms(5)]
  by (simp add: calculateCleaningPrice_def Let_def)

theorem calculateCleaningPrice_no_rooms_witness:
  "map_of CLEANING_CATEGORIES (default ''Standard Cleaning'' (Some ''Deep Cleaning'')) =
     Some \<lparr>cat_basePrice = Fin 15000, cat_pricePerRoom = Fin 2000\<rparr>
   \<and> map_of CLEANING_PACKAGES (default ''Standard Package'' None) = Some \<lparr>multiplier = Fin 1\<rparr>
   \<and> map_of HOME_SIZES (default ''small'' None) = Some \<lparr>multiplier = Fin 1\<rparr>
   \<and> map_of FREQUENCIES (default ''one-time'' None) = Some \<lparr>freq_discount = Fin 0\<rparr>
   \<and> sum_list (Object_values (mapRoomsToBackend [(''Bedroom'', 0), (''Attic'', 3)])) = 0
   \<and> calculateCleaningPrice [(''Bedroom'', 0), (''Attic'', 3)]
        \<lparr>category = Some ''Deep Cleaning'', package = None, homeSize = None, frequency = None\<rparr> =
      \<lparr>finalPrice = Fin 0, breakdown = None\<rparr>"
proof -
  let ?options = "\<lparr>category = Some ''Deep Cleaning'', package = None, homeSize = None,
    frequency = None\<rparr>"
  have h1: "map_of CLEANING_CATEGORIES (default ''Standard Cleaning'' (category ?options)) =
      Some \<lparr>cat_basePrice = Fin 15000, cat_pricePerRoom = Fin 2000\<rparr>"
    by (simp add: tables integer_eval)
  have h2: "map_of CLEANING_PACKAGES (default ''Standard Package'' (package ?options)) =
      Some \<lparr>multiplier = Fin 1\<rparr>"
    by (simp add: tables integer_eval)
  have h3: "map_of HOME_SIZES (default ''small'' (homeSize ?options)) = Some \<lparr>multiplier = Fin 1\<rparr>"
    by (simp add: tables integer_eval)
  have h4: "map_of FREQUENCIES (default ''one-time'' (frequency ?options)) =
      Some \<lparr>freq_discount = Fin 0\<rparr>"
    by (simp add: tables integer_eval)
  have h5: "sum_list (Object_values (mapRoomsToBackend [(''Bedroom'', 0), (''Attic'', 3)])) = 0"
    by (simp add: mapRoomsToBackend_Attic backendItems_init_def Object_values_def)
  from calculateCleaningPrice_no_rooms[OF h1 h2 h3 h4 h5]
  show ?thesis using h1 h2 h3 h4 h5 by simp
qed

text \<open>
  \<^bold>\<open>C7.\<close> For the selection \<open>{Kitchen: 1, Bathroom: 1}\<close> with Deep Cleaning, Premium Package,
  medium and weekly, the subtotal is \<open>(15000 + 2 * 2000) * 1.4 * 1.5 = 39900\<close>, the discounted
  price is \<open>39900 * (1 - 0.15) = 33915\<close>, and the final price is \<open>33915\<close>: in JavaScript numbers
  these products are exact.
\<close>

theorem calculateCleaningPrice_deep_premium_medium_weekly:
  "calculateCleaningPrice [(''Kitchen'', 1), (''Bathroom'', 1)]
     \<lparr>category = Some ''Deep Cleaning'', package = Some ''Premium Package'',
      homeSize = Some ''medium'', frequency = Some ''weekly''\<rparr> =
   \<lparr>finalPrice = Fin 33915,
    breakdown = Some
      \<lparr>basePrice = Some (Fin 15000),
       roomCount = Fin 2,
       pricePerRoom = Some (Fin 2000),
       packageMultiplier = Some (literal 1.4),
       sizeMultiplier = Some (literal 1.5),
       frequencyDiscount = Some (literal 0.15),
       subtotal = Fin 39900,
       discount = Fin 5985,
       total' = Fin 33915\<rparr>\<rparr>
   \<and> fmul (fmul (fadd (literal 15000) (fmul (Fin 2) (literal 2000))) (literal 1.4))
          (literal 1.5) = Fin 39900
   \<and> fmul (Fin 39900) (fsub (Fin 1) (literal 0.15)) = Fin 33915"
  by (simp add: calculateCleaningPrice_def Let_def default_def prop_get_def truthy_def field_def
      ToNumber_def CLEANING_CATEGORIES_def CLEANING_PACKAGES_def HOME_SIZES_def FREQUENCIES_def
      totalItems_Kitchen_Bathroom[unfolded One_nat_def] literal_int literal_1_4 literal_1_5 literal_0_15 deep_rooms deep_premium deep_premium_medium
      weekly_factor weekly_discounted weekly_discount weekly_rounded del: fadd.simps fmul.simps Math_round.simps)

theorem calculateCleaningPrice_deep_premium_medium_weekly_witness:
  "finalPrice (calculateCleaningPrice [(''Kitchen'', 1), (''Bathroom'', 1)]
     \<lparr>category = Some ''Deep Cleaning'', package = Some ''Premium Package'',
      homeSize = Some ''medium'', frequency = Some ''weekly''\<rparr>) = Fin 33915"
  using calculateCleaningPrice_deep_premium_medium_weekly by simp

lemma prop_get_Undefined_not_truthy: "prop_get obj k = Undefined \<Longrightarrow> \<not> truthy (prop_get obj k)"
  by (simp add: truthy_def)

text \<open>
  An option value that is neither a key of its table nor a property of \<^verbatim>\<open>Object.prototype\<close>
  gives the fallback.
\<close>

lemma calculateCleaningPrice_fallback:
  assumes "prop_get CLEANING_CATEGORIES (default ''Standard Cleaning'' (category options)) = Undefined
    \<or> prop_get CLEANING_PACKAGES (default ''Standard Package'' (package options)) = Undefined
    \<or> prop_get HOME_SIZES (default ''small'' (homeSize options)) = Undefined
    \<or> prop_get FREQUENCIES (default ''one-time'' (frequency options)) = Undefined"
  shows "calculateCleaningPrice selection options = \<lparr>finalPrice = Fin 0, breakdown = None\<rparr>"
  using assms by (auto simp: calculateCleaningPrice_def Let_def truthy_def)

text \<open>
  \<^bold>\<open>C8.\<close> The category \<^verbatim>\<open>constructor\<close> is outside the enumeration, yet for one bedroom
  \<open>calculateCleaningPrice\<close> does not return the fallback \<open>finalPrice = 0\<close> with the empty
  breakdown: \<^verbatim>\<open>CLEANING_CATEGORIES["constructor"]\<close> is the inherited function
  \<^verbatim>\<open>Object\<close>, which passes the test \<^verbatim>\<open>!categoryData\<close>; its \<^verbatim>\<open>basePrice\<close> and
  \<^verbatim>\<open>pricePerRoom\<close> are \<^verbatim>\<open>undefined\<close>, and the price is NaN.
\<close>

theorem calculateCleaningPrice_inherited_category:
  "calculateCleaningPrice [(''Bedroom'', 1)]
     \<lparr>category = Some ''constructor'', package = Some ''Standard Package'',
      homeSize = Some ''small'', frequency = Some ''one-time''\<rparr> =
   \<lparr>finalPrice = NaN,
    breakdown = Some
      \<lparr>basePrice = None,
       roomCount = Fin 1,
       pricePerRoom = None,
       packageMultiplier = Some (Fin 1),
       sizeMultiplier = Some (Fin 1),
       frequencyDiscount = Some (Fin 0),
       subtotal = NaN,
       discount = NaN,
       total' = NaN\<rparr>\<rparr>"
proof -
  have t: "reduce_totalItems (mapRoomsToBackend [(''Bedroom'', Suc 0)]) = Fin 1"
    using mapRoomsToBackend_Bedroom_1
    by (simp add: reduce_totalItems_exact Object_values_def)
  show ?thesis
    by (simp add: calculateCleaningPrice_def Let_def tables prop_get_def truthy_def field_def
        ToNumber_def Object_prototype_keys_def t integer_eval)
qed

theorem calculateCleaningPrice_inherited_category_witness:
  "finalPrice (calculateCleaningPrice [(''Bedroom'', 1)]
     \<lparr>category = Some ''constructor'', package = Some ''Standard Package'',
      homeSize = Some ''small'', frequency = Some ''one-time''\<rparr>) = NaN
   \<and> breakdown (calculateCleaningPrice [(''Bedroom'', 1)]
     \<lparr>category = Some ''constructor'', package = Some ''Standard Package'',
      homeSize = Some ''small'', frequency = Some ''one-time''\<rparr>) \<noteq> None"
  using calculateCleaningPrice_inherited_category by simp

text \<open>
  \<^bold>\<open>C10.\<close> An option that is absent is replaced by its default (Standard Cleaning, Standard
  Package, small, one-time): the result is the one for the options with these values given.
\<close>

theorem calculateCleaningPrice_defaults:
  "calculateCleaningPrice selection options =
   calculateCleaningPrice selection
     \<lparr>category = Some (case category options of None \<Rightarrow> ''Standard Cleaning'' | Some c \<Rightarrow> c),
      package = Some (case package options of None \<Rightarrow> ''Standard Package'' | Some p \<Rightarrow> p),
      homeSize = Some (case homeSize options of None \<Rightarrow> ''small'' | Some h \<Rightarrow> h),
      frequency = Some (case frequency options of None \<Rightarrow> ''one-time'' | Some f \<Rightarrow> f)\<rparr>"
  by (simp add: calculateCleaningPrice_def default_def split: option.splits)

theorem calculateCleaningPrice_defaults_witness:
  "calculateCleaningPrice [(''Bedroom'', 2)]
     \<lparr>category = None, package = None, homeSize = None, frequency = None\<rparr> =
   calculateCleaningPrice [(''Bedroom'', 2)]
     \<lparr>category = Some ''Standard Cleaning'', package = Some ''Standard Package'',
      homeSize = Some ''small'', frequency = Some ''one-time''\<rparr>
   \<and> calculateCleaningPrice [(''Bedroom'', 2)]
     \<lparr>category = Some ''Deep Cleaning'', package = None, homeSize = Some ''large'', frequency = None\<rparr> =
   calculateCleaningPrice [(''Bedroom'', 2)]
     \<lparr>category = Some ''Deep Cleaning'', package = Some ''Standard Package'',
      homeSize = Some ''large'', frequency = Some ''one-time''\<rparr>"
  using calculateCleaningPrice_defaults[of "[(''Bedroom'', 2)]"
      "\<lparr>category = None, package = None, homeSize = None, frequency = None\<rparr>"]
    calculateCleaningPrice_defaults[of "[(''Bedroom'', 2)]"
      "\<lparr>category = Some ''Deep Cleaning'', package = None, homeSize = Some ''large'', frequency = None\<rparr>"]
  by simp

section \<open>The estimated time\<close>

lemma string_of_nat_digit: "n < 10 \<Longrightarrow> string_of_nat n = [digit n]"
  by (subst string_of_nat.simps) simp

lemma string_of_nat_30: "string_of_nat 30 = ''30''"
proof -
  have "string_of_nat 30 = string_of_nat (30 div 10) @ [digit (30 mod 10)]"
    by (subst string_of_nat.simps) simp
  then show ?thesis by (simp add: string_of_nat_digit digit_def)
qed

lemma estimated_minutes_even: "(60 + (2 * k) * 30) div 60 = 1 + k" "(60 + (2 * k) * 30) mod 60 = 0"
  for k :: nat
  by simp_all

lemma estimated_minutes_odd:
  "(60 + (2 * k + 1) * 30) div 60 = 1 + k" "(60 + (2 * k + 1) * 30) mod 60 = 30"
  for k :: nat
proof -
  have e: "60 + (2 * k + 1) * 30 = 90 + k * 60" by simp
  show "(60 + (2 * k + 1) * 30) div 60 = 1 + k" unfolding e by simp
  show "(60 + (2 * k + 1) * 30) mod 60 = 30" unfolding e by simp
qed

lemma estimated_minutes:
  "(60 + n * 30) div 60 = 1 + n div 2" "(60 + n * 30) mod 60 = (if even n then 0 else 30)"
  for n :: nat
proof -
  obtain k where k: "n = 2 * k \<or> n = 2 * k + 1"
    by (metis oddE evenE)
  show "(60 + n * 30) div 60 = 1 + n div 2"
    using k estimated_minutes_even(1)[of k] estimated_minutes_odd(1)[of k] by auto
  show "(60 + n * 30) mod 60 = (if even n then 0 else 30)"
    using k estimated_minutes_even(2)[of k] estimated_minutes_odd(2)[of k] by auto
qed

text \<open>
  \<^bold>\<open>C9.\<close> For every number of rooms, \<open>getEstimatedTime\<close> takes \<open>60 + totalItems * 30\<close> minutes and
  prints the hours, then \<^verbatim>\<open>h\<close> and a space, then the remaining minutes with \<^verbatim>\<open>m\<close> unless they
  are zero: that is \<open>1 + totalItems div 2\<close> hours, and \<^verbatim>\<open>30m\<close> exactly when the number is odd.
  It gives \<^verbatim>\<open>1h \<close> for 0 rooms, \<^verbatim>\<open>1h 30m\<close> for 1 room and \<^verbatim>\<open>2h \<close> for 2 rooms.
\<close>

theorem getEstimatedTime_format:
  "getEstimatedTime n =
     string_of_nat ((60 + n * 30) div 60) @ ''h '' @
       (if (60 + n * 30) mod 60 = 0 then [] else string_of_nat ((60 + n * 30) mod 60) @ ''m'')
   \<and> getEstimatedTime n = string_of_nat (1 + n div 2) @ ''h '' @ (if even n then [] else ''30m'')
   \<and> getEstimatedTime 0 = ''1h ''
   \<and> getEstimatedTime 1 = ''1h 30m''
   \<and> getEstimatedTime 2 = ''2h ''"
proof (intro conjI)
  show "getEstimatedTime n =
     string_of_nat ((60 + n * 30) div 60) @ ''h '' @
       (if (60 + n * 30) mod 60 = 0 then [] else string_of_nat ((60 + n * 30) mod 60) @ ''m'')"
    by (simp add: getEstimatedTime_def Let_def)
  show "getEstimatedTime n = string_of_nat (1 + n div 2) @ ''h '' @ (if even n then [] else ''30m'')"
    unfolding getEstimatedTime_def Let_def estimated_minutes
    by (simp add: string_of_nat_30)
  show "getEstimatedTime 0 = ''1h ''"
    by (simp add: getEstimatedTime_def Let_def string_of_nat_digit digit_def)
  show "getEstimatedTime 1 = ''1h 30m''"
    by (simp add: getEstimatedTime_def Let_def string_of_nat_digit digit_def string_of_nat_30)
  show "getEstimatedTime 2 = ''2h ''"
    by (simp add: getEstimatedTime_def Let_def string_of_nat_digit digit_def)
qed

theorem getEstimatedTime_format_witness:
  "getEstimatedTime 3 = ''2h 30m'' \<and> getEstimatedTime 4 = ''3h ''"
  using getEstimatedTime_format[of 3] getEstimatedTime_format[of 4]
  by (simp add: string_of_nat_digit digit_def string_of_nat_30)

section \<open>Validation in \<^verbatim>\<open>handleContinue\<close>\<close>

lemma foldl_plus_sum_list: "foldl (\<lambda>sum count. sum + count) a cs = a + sum_list cs" for a :: nat
  by (induction cs arbitrary: a) simp_all

lemma totalItems_effect: "totalItems (effect_totalItems s) = sum_list (Object_values (items s))"
  by (simp add: effect_totalItems_def foldl_plus_sum_list)

text \<open>
  \<^bold>\<open>C3.\<close> When the room counts of the page sum to 0, \<open>handleContinue\<close> sets the error
  \<^verbatim>\<open>Please select at least one room to clean\<close> (the validation error for "no rooms selected") and
  changes nothing else: no request is sent, nothing is stored, the date selector stays as it
  is. When the sum is positive, the error is cleared. In neither case is a request sent.
  \<open>totalItems\<close> is the state that the effect computes from \<open>items\<close>.
\<close>

theorem handleContinue_validation:
  "(sum_list (Object_values (items s)) = 0 \<longrightarrow>
      handleContinue JSON_stringify (effect_totalItems s) w =
        ((effect_totalItems s)\<lparr>error := Some ''Please select at least one room to clean''\<rparr>, w))
   \<and> (0 < sum_list (Object_values (items s)) \<longrightarrow>
      error (fst (handleContinue JSON_stringify (effect_totalItems s) w)) = None)
   \<and> requests (snd (handleContinue JSON_stringify (effect_totalItems s) w)) = requests w"
  by (simp add: handleContinue_def totalItems_effect Let_def split: option.splits)

theorem handleContinue_validation_witness:
  "sum_list (Object_values (items initial_page)) = 0
   \<and> handleContinue (\<lambda>b. ''{}'') (effect_totalItems initial_page)
        \<lparr>document_cookie = None, localStorage = Some Map.empty, requests = ([] :: unit list)\<rparr> =
       ((effect_totalItems initial_page)\<lparr>error := Some ''Please select at least one room to clean''\<rparr>,
        \<lparr>document_cookie = None, localStorage = Some Map.empty, requests = []\<rparr>)
   \<and> 0 < sum_list (Object_values (items (initial_page\<lparr>items := [(''Bedroom'', 2)], error := Some ''old''\<rparr>)))
   \<and> error (fst (handleContinue (\<lambda>b. ''{}'')
        (effect_totalItems (initial_page\<lparr>items := [(''Bedroom'', 2)], error := Some ''old''\<rparr>))
        \<lparr>document_cookie = None, localStorage = Some Map.empty, requests = ([] :: unit list)\<rparr>)) = None
   \<and> requests (snd (handleContinue (\<lambda>b. ''{}'')
        (effect_totalItems (initial_page\<lparr>items := [(''Bedroom'', 2)], error := Some ''old''\<rparr>))
        \<lparr>document_cookie = None, localStorage = Some Map.empty, requests = ([] :: unit list)\<rparr>)) = []"
proof -
  let ?w = "\<lparr>document_cookie = None, localStorage = Some Map.empty, requests = ([] :: unit list)\<rparr>"
  let ?s = "initial_page\<lparr>items := [(''Bedroom'', 2)], error := Some ''old''\<rparr>"
  have z: "sum_list (Object_values (items initial_page)) = 0"
    by (simp add: initial_page_def Object_values_def)
  have p: "0 < sum_list (Object_values (items ?s))"
    by (simp add: Object_values_def)
  note a = handleContinue_validation[of initial_page "\<lambda>b. ''{}''" ?w]
  note b = handleContinue_validation[of ?s "\<lambda>b. ''{}''" ?w]
  show ?thesis using z p a b by simp
qed

section \<open>Credential and identity\<close>

text \<open>
  No credential can be read when the cookies hold no \<^verbatim>\<open>auth_token\<close> entry (or there is no
  document) and the store holds neither key, or holds it empty (or there is no store).
\<close>

lemma getAuthToken_no_credential:
  assumes "document_cookie w = None \<or>
      (\<exists>c. document_cookie w = Some c \<and>
        (\<forall>cookie \<in> set (split CHR '';'' c). \<not> startsWith (trim cookie) ''auth_token=''))"
    and "localStorage w = None \<or>
      (\<exists>store. localStorage w = Some store \<and>
        (store ''auth_token'' = None \<or> store ''auth_token'' = Some []) \<and>
        (store ''token'' = None \<or> store ''token'' = Some []))"
  shows "getAuthToken w = None \<or> getAuthToken w = Some []"
proof -
  have c: "(case document_cookie w of None \<Rightarrow> None
      | Some cookies \<Rightarrow> List.find (\<lambda>cookie. startsWith (trim cookie) ''auth_token='')
          (split CHR '';'' cookies)) = None"
    using assms(1) by (auto simp: find_None_iff)
  show ?thesis
    unfolding getAuthToken_def c using assms(2) by (auto split: option.splits)
qed

lemma getUserData_try_no_id:
  assumes "JSON_parse u = Some user"
    and "\<And>a. get_property user ''user_id'' = Inr a \<Longrightarrow> \<not> json_truthy a"
    and "\<And>b. get_property user ''id'' = Inr b \<Longrightarrow> \<not> json_truthy b"
  shows "\<exists>e. getUserData_try JSON_parse u = Inl e"
proof (cases "get_property user ''user_id''")
  case (Inl e)
  then show ?thesis using assms(1) by (simp add: getUserData_try_def)
next
  case (Inr a)
  then have na: "\<not> json_truthy a" by (rule assms(2))
  show ?thesis
  proof (cases "get_property user ''id''")
    case (Inl e)
    then show ?thesis using assms(1) Inr na by (simp add: getUserData_try_def)
  next
    case inr: (Inr b)
    then have "\<not> json_truthy b" by (rule assms(3))
    then show ?thesis using assms(1) Inr na inr
      by (auto simp: getUserData_try_def split: option.splits)
  qed
qed

text \<open>
  \<^bold>\<open>C4.\<close> When no credential can be read (\<open>getAuthToken\<close> gives \<^verbatim>\<open>null\<close> or the empty string),
  \<open>bookCleaningService\<close> fails with the error \<^verbatim>\<open>Authentication required. Please log in again.\<close>
  and leaves the browser as it was: no request is sent. With a credential, it fails without a
  request and with another message when the identity cannot be read: \<^verbatim>\<open>User not found. Please
  log in again.\<close> when \<^verbatim>\<open>user_data\<close> is absent or empty, \<^verbatim>\<open>Invalid user data. Please log in
  again.\<close> when it is not JSON or yields no usable \<^verbatim>\<open>user_id\<close> or \<^verbatim>\<open>id\<close>, and
  \<^verbatim>\<open>localStorage not available\<close> when there is no store.
\<close>

theorem bookCleaningService_auth_errors:
  "(getAuthToken w = None \<or> getAuthToken w = Some [] \<longrightarrow>
      bookCleaningService env JSON_parse fetch w cd bd ci =
        (Inl (Error ''Authentication required. Please log in again.''), w))
   \<and> (getAuthToken w = Some t \<and> t \<noteq> [] \<and> localStorage w = None \<longrightarrow>
      bookCleaningService env JSON_parse fetch w cd bd ci =
        (Inl (Error ''localStorage not available''), w))
   \<and> (getAuthToken w = Some t \<and> t \<noteq> [] \<and> localStorage w = Some store \<and>
       (store ''user_data'' = None \<or> store ''user_data'' = Some []) \<longrightarrow>
      bookCleaningService env JSON_parse fetch w cd bd ci =
        (Inl (Error ''User not found. Please log in again.''), w))
   \<and> (getAuthToken w = Some t \<and> t \<noteq> [] \<and> localStorage w = Some store \<and>
       store ''user_data'' = Some u \<and> u \<noteq> [] \<and> JSON_parse u = None \<longrightarrow>
      bookCleaningService env JSON_parse fetch w cd bd ci =
        (Inl (Error ''Invalid user data. Please log in again.''), w))
   \<and> (getAuthToken w = Some t \<and> t \<noteq> [] \<and> localStorage w = Some store \<and>
       store ''user_data'' = Some u \<and> u \<noteq> [] \<and> JSON_parse u = Some user \<and>
       (\<forall>a. get_property user ''user_id'' = Inr a \<longrightarrow> \<not> json_truthy a) \<and>
       (\<forall>b. get_property user ''id'' = Inr b \<longrightarrow> \<not> json_truthy b) \<longrightarrow>
      bookCleaningService env JSON_parse fetch w cd bd ci =
        (Inl (Error ''Invalid user data. Please log in again.''), w))
   \<and> ''User not found. Please log in again.'' \<noteq> ''Authentication required. Please log in again.''
   \<and> ''Invalid user data. Please log in again.'' \<noteq> ''Authentication required. Please log in again.''
   \<and> ''localStorage not available'' \<noteq> ''Authentication required. Please log in again.''"
proof (intro conjI impI)
  assume "getAuthToken w = None \<or> getAuthToken w = Some []"
  then show "bookCleaningService env JSON_parse fetch w cd bd ci =
      (Inl (Error ''Authentication required. Please log in again.''), w)"
    by (auto simp: bookCleaningService_def)
next
  assume "getAuthToken w = Some t \<and> t \<noteq> [] \<and> localStorage w = None"
  then show "bookCleaningService env JSON_parse fetch w cd bd ci =
      (Inl (Error ''localStorage not available''), w)"
    by (simp add: bookCleaningService_def getUserData_def)
next
  assume "getAuthToken w = Some t \<and> t \<noteq> [] \<and> localStorage w = Some store \<and>
    (store ''user_data'' = None \<or> store ''user_data'' = Some [])"
  then show "bookCleaningService env JSON_parse fetch w cd bd ci =
      (Inl (Error ''User not found. Please log in again.''), w)"
    by (auto simp: bookCleaningService_def getUserData_def)
next
  assume "getAuthToken w = Some t \<and> t \<noteq> [] \<and> localStorage w = Some store \<and>
    store ''user_data'' = Some u \<and> u \<noteq> [] \<and> JSON_parse u = None"
  then show "bookCleaningService env JSON_parse fetch w cd bd ci =
      (Inl (Error ''Invalid user data. Please log in again.''), w)"
    by (simp add: bookCleaningService_def getUserData_def getUserData_try_def)
next
  assume h: "getAuthToken w = Some t \<and> t \<noteq> [] \<and> localStorage w = Some store \<and>
    store ''user_data'' = Some u \<and> u \<noteq> [] \<and> JSON_parse u = Some user \<and>
    (\<forall>a. get_property user ''user_id'' = Inr a \<longrightarrow> \<not> json_truthy a) \<and>
    (\<forall>b. get_property user ''id'' = Inr b \<longrightarrow> \<not> json_truthy b)"
  then obtain e where "getUserData_try JSON_parse u = Inl e"
    using getUserData_try_no_id[of JSON_parse u user] by blast
  then show "bookCleaningService env JSON_parse fetch w cd bd ci =
      (Inl (Error ''Invalid user data. Please log in again.''), w)"
    using h by (simp add: bookCleaningService_def getUserData_def)
qed simp_all

lemma getAuthToken_cookie_abc:
  "getAuthToken \<lparr>document_cookie = Some ''theme=dark; auth_token=abc'', localStorage = ls,
     requests = rs\<rparr> = Some ''abc''"
  by (simp add: getAuthToken_def startsWith_def trim_def isWhiteSpace_def)

lemma getAuthToken_nothing:
  "getAuthToken \<lparr>document_cookie = Some ''theme=dark'', localStorage = Some Map.empty,
     requests = rs\<rparr> = None"
  by (simp add: getAuthToken_def startsWith_def trim_def isWhiteSpace_def)

theorem bookCleaningService_auth_errors_witness:
  "getAuthToken \<lparr>document_cookie = Some ''theme=dark'', localStorage = Some Map.empty,
      requests = ([] :: (unit, unit, unit) request list)\<rparr> = None
   \<and> bookCleaningService None JSON_parse_examples (\<lambda>r. Rejected)
        \<lparr>document_cookie = Some ''theme=dark'', localStorage = Some Map.empty, requests = []\<rparr>
        () () (None :: unit option) =
       (Inl (Error ''Authentication required. Please log in again.''),
        \<lparr>document_cookie = Some ''theme=dark'', localStorage = Some Map.empty, requests = []\<rparr>)
   \<and> getAuthToken \<lparr>document_cookie = Some ''theme=dark; auth_token=abc'', localStorage = None,
      requests = ([] :: (unit, unit, unit) request list)\<rparr> = Some ''abc''
   \<and> bookCleaningService None JSON_parse_examples (\<lambda>r. Rejected)
        \<lparr>document_cookie = Some ''theme=dark; auth_token=abc'', localStorage = None, requests = []\<rparr>
        () () (None :: unit option) =
       (Inl (Error ''localStorage not available''),
        \<lparr>document_cookie = Some ''theme=dark; auth_token=abc'', localStorage = None, requests = []\<rparr>)
   \<and> bookCleaningService None JSON_parse_examples (\<lambda>r. Rejected)
        \<lparr>document_cookie = Some ''theme=dark; auth_token=abc'', localStorage = Some Map.empty,
         requests = []\<rparr>
        () () (None :: unit option) =
       (Inl (Error ''User not found. Please log in again.''),
        \<lparr>document_cookie = Some ''theme=dark; auth_token=abc'', localStorage = Some Map.empty,
         requests = []\<rparr>)
   \<and> bookCleaningService None JSON_parse_examples (\<lambda>r. Rejected)
        \<lparr>document_cookie = Some ''theme=dark; auth_token=abc'',
         localStorage = Some [''user_data'' \<mapsto> ''oops''], requests = []\<rparr>
        () () (None :: unit option) =
       (Inl (Error ''Invalid user data. Please log in again.''),
        \<lparr>document_cookie = Some ''theme=dark; auth_token=abc'',
         localStorage = Some [''user_data'' \<mapsto> ''oops''], requests = []\<rparr>)
   \<and> bookCleaningService None JSON_parse_examples (\<lambda>r. Rejected)
        \<lparr>document_cookie = Some ''theme=dark; auth_token=abc'',
         localStorage = Some [''user_data'' \<mapsto> user_data_without_id], requests = []\<rparr>
        () () (None :: unit option) =
       (Inl (Error ''Invalid user data. Please log in again.''),
        \<lparr>document_cookie = Some ''theme=dark; auth_token=abc'',
         localStorage = Some [''user_data'' \<mapsto> user_data_without_id], requests = []\<rparr>)"
proof -
  let ?rs = "[] :: (unit, unit, unit) request list"
  let ?w0 = "\<lparr>document_cookie = Some ''theme=dark'', localStorage = Some Map.empty, requests = ?rs\<rparr>"
  let ?w1 = "\<lparr>document_cookie = Some ''theme=dark; auth_token=abc'', localStorage = None,
    requests = ?rs\<rparr>"
  let ?w2 = "\<lparr>document_cookie = Some ''theme=dark; auth_token=abc'', localStorage = Some Map.empty,
    requests = ?rs\<rparr>"
  let ?w3 = "\<lparr>document_cookie = Some ''theme=dark; auth_token=abc'',
    localStorage = Some [''user_data'' \<mapsto> ''oops''], requests = ?rs\<rparr>"
  let ?w4 = "\<lparr>document_cookie = Some ''theme=dark; auth_token=abc'',
    localStorage = Some [''user_data'' \<mapsto> user_data_without_id], requests = ?rs\<rparr>"
  let ?user = "JObj [(''name'', JStr ''Ada''), (''id'', JNum (Fin 0))]"
  have n: "getAuthToken ?w0 = None" by (rule getAuthToken_nothing)
  have t1: "getAuthToken ?w1 = Some ''abc''" by (rule getAuthToken_cookie_abc)
  have t2: "getAuthToken ?w2 = Some ''abc''" by (rule getAuthToken_cookie_abc)
  have t3: "getAuthToken ?w3 = Some ''abc''" by (rule getAuthToken_cookie_abc)
  have t4: "getAuthToken ?w4 = Some ''abc''" by (rule getAuthToken_cookie_abc)
  have noid: "(\<forall>a. get_property ?user ''user_id'' = Inr a \<longrightarrow> \<not> json_truthy a) \<and>
      (\<forall>b. get_property ?user ''id'' = Inr b \<longrightarrow> \<not> json_truthy b)"
    by simp
  note a0 = bookCleaningService_auth_errors[where w = ?w0 and env = None and JSON_parse = JSON_parse_examples
      and fetch = "\<lambda>r. Rejected" and cd = "()" and bd = "()" and ci = None]
  note a1 = bookCleaningService_auth_errors[where w = ?w1 and env = None and JSON_parse = JSON_parse_examples
      and fetch = "\<lambda>r. Rejected" and cd = "()" and bd = "()" and ci = None and t = "''abc''"]
  note a2 = bookCleaningService_auth_errors[where w = ?w2 and env = None and JSON_parse = JSON_parse_examples
      and fetch = "\<lambda>r. Rejected" and cd = "()" and bd = "()" and ci = None and t = "''abc''"
      and store = Map.empty]
  note a3 = bookCleaningService_auth_errors[where w = ?w3 and env = None and JSON_parse = JSON_parse_examples
      and fetch = "\<lambda>r. Rejected" and cd = "()" and bd = "()" and ci = None and t = "''abc''"
      and store = "[''user_data'' \<mapsto> ''oops'']" and u = "''oops''"]
  note a4 = bookCleaningService_auth_errors[where w = ?w4 and env = None
      and JSON_parse = JSON_parse_examples and fetch = "\<lambda>r. Rejected" and cd = "()" and bd = "()"
      and ci = None and t = "''abc''" and store = "[''user_data'' \<mapsto> user_data_without_id]"
      and u = user_data_without_id and user = ?user]
  have r0: "bookCleaningService None JSON_parse_examples (\<lambda>r. Rejected) ?w0 () () None =
      (Inl (Error ''Authentication required. Please log in again.''), ?w0)"
    using a0 n by simp
  have r1: "bookCleaningService None JSON_parse_examples (\<lambda>r. Rejected) ?w1 () () None =
      (Inl (Error ''localStorage not available''), ?w1)"
    using a1 t1 by simp
  have r2: "bookCleaningService None JSON_parse_examples (\<lambda>r. Rejected) ?w2 () () None =
      (Inl (Error ''User not found. Please log in again.''), ?w2)"
    using a2 t2 by simp
  have r3: "bookCleaningService None JSON_parse_examples (\<lambda>r. Rejected) ?w3 () () None =
      (Inl (Error ''Invalid user data. Please log in again.''), ?w3)"
    using a3 t3 by (simp add: JSON_parse_examples_def user_data_with_id_def user_data_without_id_def)
  have r4: "bookCleaningService None JSON_parse_examples (\<lambda>r. Rejected) ?w4 () () None =
      (Inl (Error ''Invalid user data. Please log in again.''), ?w4)"
    using a4 t4 noid
    by (simp add: JSON_parse_examples_def user_data_with_id_def user_data_without_id_def)
  show ?thesis using n t1 r0 r1 r2 r3 r4 by simp
qed

section \<open>The response\<close>

lemma string_of_nat_500: "string_of_nat 500 = ''500''"
proof -
  have a: "string_of_nat 500 = string_of_nat (500 div 10) @ [digit (500 mod 10)]"
    by (subst string_of_nat.simps) simp
  have b: "string_of_nat 50 = string_of_nat (50 div 10) @ [digit (50 mod 10)]"
    by (subst string_of_nat.simps) simp
  show ?thesis using a b by (simp add: string_of_nat_digit digit_def)
qed

lemma getUserData_example:
  "getUserData JSON_parse_examples
     \<lparr>document_cookie = c, localStorage = Some [''user_data'' \<mapsto> user_data_with_id], requests = rs\<rparr> =
   Inr (JObj [(''id'', JNum (Fin 7))], JNum (Fin 7))"
  by (simp add: getUserData_def getUserData_try_def JSON_parse_examples_def user_data_with_id_def)

text \<open>
  \<^bold>\<open>C5, as the code has it.\<close> With a credential and an identity, the request is sent and
  recorded. When the response is not 2xx and its body is JSON with a truthy \<^verbatim>\<open>message\<close>,
  \<open>bookCleaningService\<close> fails with an error made from that message (the message itself when it
  is a string); when the body is JSON other than \<^verbatim>\<open>null\<close> with no \<^verbatim>\<open>message\<close>, or a falsy one,
  it fails with \<^verbatim>\<open>Booking failed: \<close> followed by the status. When the response is 2xx and
  its body is JSON other than \<^verbatim>\<open>null\<close>, it resolves to the \<^verbatim>\<open>data\<close> field of the body as it
  is (\<^verbatim>\<open>undefined\<close> when absent).
\<close>

theorem bookCleaningService_response:
  assumes "getAuthToken w = Some t" and "t \<noteq> []"
    and "getUserData JSON_parse w = Inr (user, uid)"
    and "fetch (booking_request env t uid cd bd ci) = Response r"
  shows "(\<not> ok r \<and> json_body r = Some errorData \<and> get_property errorData ''message'' = Inr (Some v) \<and>
       json_truthy (Some v) \<longrightarrow>
      bookCleaningService env JSON_parse fetch w cd bd ci =
        (Inl (new_Error v), w\<lparr>requests := requests w @ [booking_request env t uid cd bd ci]\<rparr>))
   \<and> new_Error (JStr m) = Error m
   \<and> (\<not> ok r \<and> json_body r = Some errorData \<and> get_property errorData ''message'' = Inr mv \<and>
       \<not> json_truthy mv \<longrightarrow>
      bookCleaningService env JSON_parse fetch w cd bd ci =
        (Inl (Error (''Booking failed: '' @ string_of_nat (status r))),
         w\<lparr>requests := requests w @ [booking_request env t uid cd bd ci]\<rparr>))
   \<and> (ok r \<and> json_body r = Some result \<and> get_property result ''data'' = Inr d \<longrightarrow>
      bookCleaningService env JSON_parse fetch w cd bd ci =
        (Inr d, w\<lparr>requests := requests w @ [booking_request env t uid cd bd ci]\<rparr>))"
proof (intro conjI impI)
  assume "\<not> ok r \<and> json_body r = Some errorData \<and> get_property errorData ''message'' = Inr (Some v) \<and>
    json_truthy (Some v)"
  then show "bookCleaningService env JSON_parse fetch w cd bd ci =
      (Inl (new_Error v), w\<lparr>requests := requests w @ [booking_request env t uid cd bd ci]\<rparr>)"
    using assms by (simp add: bookCleaningService_def Let_def)
next
  show "new_Error (JStr m) = Error m" by (simp add: new_Error_def)
next
  assume "\<not> ok r \<and> json_body r = Some errorData \<and> get_property errorData ''message'' = Inr mv \<and>
    \<not> json_truthy mv"
  then show "bookCleaningService env JSON_parse fetch w cd bd ci =
      (Inl (Error (''Booking failed: '' @ string_of_nat (status r))),
       w\<lparr>requests := requests w @ [booking_request env t uid cd bd ci]\<rparr>)"
    using assms by (auto simp: bookCleaningService_def Let_def split: option.splits)
next
  assume "ok r \<and> json_body r = Some result \<and> get_property result ''data'' = Inr d"
  then show "bookCleaningService env JSON_parse fetch w cd bd ci =
      (Inr d, w\<lparr>requests := requests w @ [booking_request env t uid cd bd ci]\<rparr>)"
    using assms by (simp add: bookCleaningService_def Let_def)
qed

theorem bookCleaningService_response_witness:
  "fst (bookCleaningService None JSON_parse_examples
        (\<lambda>q. Response \<lparr>status = 500, json_body = Some (JObj [(''message'', JStr ''server down'')])\<rparr>)
        \<lparr>document_cookie = Some ''theme=dark; auth_token=abc'',
         localStorage = Some [''user_data'' \<mapsto> user_data_with_id],
         requests = ([] :: (unit, unit, unit) request list)\<rparr> () () None) =
     Inl (Error ''server down'')
   \<and> fst (bookCleaningService None JSON_parse_examples
        (\<lambda>q. Response \<lparr>status = 500, json_body = Some (JObj [])\<rparr>)
        \<lparr>document_cookie = Some ''theme=dark; auth_token=abc'',
         localStorage = Some [''user_data'' \<mapsto> user_data_with_id],
         requests = ([] :: (unit, unit, unit) request list)\<rparr> () () None) =
     Inl (Error ''Booking failed: 500'')
   \<and> fst (bookCleaningService None JSON_parse_examples
        (\<lambda>q. Response \<lparr>status = 201, json_body = Some (JObj [(''data'', JObj [(''id'', JStr ''b1'')])])\<rparr>)
        \<lparr>document_cookie = Some ''theme=dark; auth_token=abc'',
         localStorage = Some [''user_data'' \<mapsto> user_data_with_id],
         requests = ([] :: (unit, unit, unit) request list)\<rparr> () () None) =
     Inr (Some (JObj [(''id'', JStr ''b1'')]))
   \<and> requests (snd (bookCleaningService None JSON_parse_examples
        (\<lambda>q. Response \<lparr>status = 201, json_body = Some (JObj [(''data'', JObj [(''id'', JStr ''b1'')])])\<rparr>)
        \<lparr>document_cookie = Some ''theme=dark; auth_token=abc'',
         localStorage = Some [''user_data'' \<mapsto> user_data_with_id],
         requests = ([] :: (unit, unit, unit) request list)\<rparr> () () None)) =
     [booking_request None ''abc'' (JNum (Fin 7)) () () None]"
proof -
    let ?w = "\<lparr>document_cookie = Some ''theme=dark; auth_token=abc'',
    localStorage = Some [''user_data'' \<mapsto> user_data_with_id],
    requests = ([] :: (unit, unit, unit) request list)\<rparr>"
  let ?r1 = "\<lparr>status = 500, json_body = Some (JObj [(''message'', JStr ''server down'')])\<rparr>"
  let ?r2 = "\<lparr>status = 500, json_body = Some (JObj [])\<rparr>"
  let ?r3 = "\<lparr>status = 201, json_body = Some (JObj [(''data'', JObj [(''id'', JStr ''b1'')])])\<rparr>"
  have t: "getAuthToken ?w = Some ''abc''" by (rule getAuthToken_cookie_abc)
  have ne: "''abc'' \<noteq> []" by simp
  have u: "getUserData JSON_parse_examples ?w = Inr (JObj [(''id'', JNum (Fin 7))], JNum (Fin 7))"
    by (rule getUserData_example)
  have f1: "(\<lambda>q :: (unit, unit, unit) request. Response ?r1)
      (booking_request None ''abc'' (JNum (Fin 7)) () () None) = Response ?r1" by simp
  have f2: "(\<lambda>q :: (unit, unit, unit) request. Response ?r2)
      (booking_request None ''abc'' (JNum (Fin 7)) () () None) = Response ?r2" by simp
  have f3: "(\<lambda>q :: (unit, unit, unit) request. Response ?r3)
      (booking_request None ''abc'' (JNum (Fin 7)) () () None) = Response ?r3" by simp
  note a1 = bookCleaningService_response[OF t ne u f1,
      where errorData = "JObj [(''message'', JStr ''server down'')]" and v = "JStr ''server down''"
        and m = "''server down''"]
  note a2 = bookCleaningService_response[OF t ne u f2, where errorData = "JObj []" and mv = None]
  note a3 = bookCleaningService_response[OF t ne u f3,
      where result = "JObj [(''data'', JObj [(''id'', JStr ''b1'')])]"
        and d = "Some (JObj [(''id'', JStr ''b1'')])"]
  have c1: "fst (bookCleaningService None JSON_parse_examples (\<lambda>q. Response ?r1) ?w () () None) =
      Inl (Error ''server down'')"
    using a1 by (simp add: ok_def)
  have c2: "fst (bookCleaningService None JSON_parse_examples (\<lambda>q. Response ?r2) ?w () () None) =
      Inl (Error ''Booking failed: 500'')"
    using a2 by (simp add: ok_def string_of_nat_500)
  have c3: "bookCleaningService None JSON_parse_examples (\<lambda>q. Response ?r3) ?w () () None =
      (Inr (Some (JObj [(''id'', JStr ''b1'')])),
       ?w\<lparr>requests := requests ?w @ [booking_request None ''abc'' (JNum (Fin 7)) () () None]\<rparr>)"
    using a3 by (simp add: ok_def)
  show ?thesis using c1 c2 c3 by simp
qed

text \<open>
  \<^bold>\<open>C5, as it is stated,\<close> fails where the body of a response that is not 2xx is not JSON:
  \<^verbatim>\<open>response.json()\<close> rejects, and the failure is that \<^verbatim>\<open>SyntaxError\<close>, not an error with the
  message \<^verbatim>\<open>Booking failed: 500\<close>.
\<close>

theorem bookCleaningService_unparseable_body:
  "fst (bookCleaningService None JSON_parse_examples
        (\<lambda>q. Response \<lparr>status = 500, json_body = None\<rparr>)
        \<lparr>document_cookie = Some ''theme=dark; auth_token=abc'',
         localStorage = Some [''user_data'' \<mapsto> user_data_with_id],
         requests = ([] :: (unit, unit, unit) request list)\<rparr> () () None) =
     Inl SyntaxError
   \<and> fst (bookCleaningService None JSON_parse_examples
        (\<lambda>q. Response \<lparr>status = 500, json_body = None\<rparr>)
        \<lparr>document_cookie = Some ''theme=dark; auth_token=abc'',
         localStorage = Some [''user_data'' \<mapsto> user_data_with_id],
         requests = ([] :: (unit, unit, unit) request list)\<rparr> () () None) \<noteq>
     Inl (Error (''Booking failed: '' @ string_of_nat 500))"
proof -
  have "fst (bookCleaningService None JSON_parse_examples
        (\<lambda>q. Response \<lparr>status = 500, json_body = None\<rparr>)
        \<lparr>document_cookie = Some ''theme=dark; auth_token=abc'',
         localStorage = Some [''user_data'' \<mapsto> user_data_with_id],
         requests = ([] :: (unit, unit, unit) request list)\<rparr> () () None) =
     Inl SyntaxError"
    by (simp add: bookCleaningService_def Let_def getAuthToken_cookie_abc getUserData_example ok_def)
  then show ?thesis by simp
qed

end
